theory Spec2Isabelle
  imports Complex_Main
begin

section \<open>JavaScript values, objects and results\<close>

text \<open>
  The plugin is TypeScript running on a single-threaded event loop.  A behaviour's
  configuration is an object with string keys and values of unknown type; the scheduler
  only ever reads the truthiness of one of them (\<^verbatim>\<open>state.enabled\<close>) and copies the
  rest.  Numbers are modelled as reals (no claim depends on rounding of doubles).
\<close>

datatype jsval =
    JUndefined
  | JNull
  | JBool bool
  | JNum real
  | JStr string
  | JArr "jsval list"
  | JObj "(string \<times> jsval) list"

fun truthy :: "jsval \<Rightarrow> bool" where
  "truthy JUndefined = False"
| "truthy JNull = False"
| "truthy (JBool b) = b"
| "truthy (JNum n) = (n \<noteq> 0)"
| "truthy (JStr s) = (s \<noteq> [])"
| "truthy (JArr xs) = True"
| "truthy (JObj kvs) = True"

type_synonym jsobj = "string \<rightharpoonup> jsval"

text \<open>Reading a property that the object does not have gives \<^verbatim>\<open>undefined\<close>.\<close>

definition get_prop :: "jsobj \<Rightarrow> string \<Rightarrow> jsval" where
  "get_prop obj k = (case obj k of None \<Rightarrow> JUndefined | Some v \<Rightarrow> v)"

text \<open>
  A call either returns a value or throws an \<^verbatim>\<open>Error\<close>; a promise either resolves or
  rejects.  \<open>Inl msg\<close> is the thrown (rejected) \<^verbatim>\<open>Error\<close> with its message,
  \<open>Inr v\<close> the returned (resolved) value.  Every throw in the repository is
  \<^verbatim>\<open>throw new Error(...)\<close>, so an error is identified with its message.
\<close>

type_synonym 'a js_result = "string + 'a"

text \<open>\<^verbatim>\<open>Array.prototype.join\<close> on strings.\<close>

fun join :: "string \<Rightarrow> string list \<Rightarrow> string" where
  "join sep [] = []"
| "join sep [x] = x"
| "join sep (x # y # ys) = x @ sep @ join sep (y # ys)"

datatype level = Info | Warn | Error

type_synonym log_line = "level \<times> string"


section \<open>The behaviour scheduler (autonomous.ts)\<close>

subsection \<open>Types\<close>

text \<open>
  A tick receives the bot, its own state object and the logger.  It may mutate the bot
  and the state object, write log lines, and throw (or return a promise that rejects).
  The model runs a tick atomically and records all of that in a \<open>tick_result\<close>:
  \<open>thrown\<close> is the value the tick threw or rejected with, if any.  The tick bodies
  themselves run against the mineflayer API; the scheduler below is stated for arbitrary
  tick functions.

  A tick may throw any value, not only an \<^verbatim>\<open>Error\<close>.  All the scheduler does with it is
  evaluate \<^verbatim>\<open>${err.message}\<close> in its \<^verbatim>\<open>catch\<close> block, so a thrown value is told apart
  by what that evaluation gives: \<open>ThrownValue m\<close> is a value for which it gives the
  string \<open>m\<close> (an \<^verbatim>\<open>Error\<close> with message \<open>m\<close>; a thrown string or number gives
  \<^verbatim>\<open>undefined\<close>); on \<^verbatim>\<open>undefined\<close> and \<^verbatim>\<open>null\<close> the property read raises a
  \<^verbatim>\<open>TypeError\<close>; \<open>ThrownUnreadable e\<close> is any other value on which the evaluation raises
  \<open>e\<close> (a throwing getter, a message that has no string conversion).
\<close>

datatype thrown_value =
    ThrownValue string
  | ThrownUndefined
  | ThrownNull
  | ThrownUnreadable string

fun read_message :: "thrown_value \<Rightarrow> string js_result" where
  "read_message (ThrownValue m) = Inr m"
| "read_message ThrownUndefined = Inl ''Cannot read properties of undefined (reading 'message')''"
| "read_message ThrownNull = Inl ''Cannot read properties of null (reading 'message')''"
| "read_message (ThrownUnreadable e) = Inl e"

record 'b tick_result =
  thrown :: "thrown_value option"
  bot_after :: 'b
  config_after :: jsobj
  tick_log :: "log_line list"

record 'b BehaviorDef =
  name :: string
  description :: string
  defaultConfig :: jsobj
  tick :: "'b \<Rightarrow> jsobj \<Rightarrow> 'b tick_result"
  interval :: nat

text \<open>
  A live \<^verbatim>\<open>setInterval\<close> timer of the host.  Its callback closes over \<^verbatim>\<open>def\<close>
  and over the state object created by the same \<^verbatim>\<open>startBehavior\<close> call; the object is
  held by reference, so the timer records its address in the store.  \<open>timer_delay\<close> is
  the second argument of \<^verbatim>\<open>setInterval\<close>, the period in milliseconds.
\<close>

record 'b interval_timer =
  timer_id :: nat
  timer_def :: "'b BehaviorDef"
  timer_state :: nat
  timer_delay :: nat

text \<open>
  The module state: \<^verbatim>\<open>_bot\<close>, \<^verbatim>\<open>activeTimers\<close> (a \<^verbatim>\<open>Map\<close>, which keeps insertion
  order), \<^verbatim>\<open>behaviorStates\<close> (a \<^verbatim>\<open>Map\<close> from names to state objects, here to their
  addresses), the store of state objects, the host's live interval timers, the two
  allocation counters, and what has been written to \<^verbatim>\<open>_logger\<close>.
\<close>

record 'b scheduler =
  bot :: "'b option"
  activeTimers :: "(string \<times> nat) list"
  behaviorStates :: "string \<rightharpoonup> nat"
  heap :: "nat \<Rightarrow> jsobj"
  intervals :: "'b interval_timer list"
  next_timer :: nat
  next_addr :: nat
  logger :: "log_line list"

definition scheduler0 :: "'b scheduler" where
  "scheduler0 = \<lparr> bot = None, activeTimers = [], behaviorStates = Map.empty,
     heap = (\<lambda>a. Map.empty), intervals = [], next_timer = 0, next_addr = 0, logger = [] \<rparr>"

subsection \<open>Control API\<close>

definition initAutonomous :: "'b \<Rightarrow> 'b scheduler \<Rightarrow> 'b scheduler" where
  "initAutonomous b s = s\<lparr> bot := Some b \<rparr>"

text \<open>\<^verbatim>\<open>clearInterval(timer)\<close>: the host forgets the timer.\<close>

definition clearInterval :: "nat \<Rightarrow> 'b scheduler \<Rightarrow> 'b scheduler" where
  "clearInterval t s = s\<lparr> intervals := filter (\<lambda>x. timer_id x \<noteq> t) (intervals s) \<rparr>"

definition stopBehavior :: "string \<Rightarrow> 'b scheduler \<Rightarrow> string js_result \<times> 'b scheduler" where
  \<open>stopBehavior n s =
    (case map_of (activeTimers s) n of
       None \<Rightarrow> (Inr (''Behavior "'' @ n @ ''" is not running.''), s)
     | Some t \<Rightarrow>
        (let s1 = clearInterval t s;
             s2 = s1\<lparr> activeTimers := filter (\<lambda>kv. fst kv \<noteq> n) (activeTimers s1) \<rparr>;
             s3 = (case behaviorStates s2 n of
                     None \<Rightarrow> s2
                   | Some a \<Rightarrow> s2\<lparr> heap := (heap s2)(a := (heap s2 a)(''enabled'' \<mapsto> JBool False)) \<rparr>);
             s4 = s3\<lparr> logger := logger s3 @ [(Info, ''[Auto] Stopped behavior: '' @ n)] \<rparr>
         in (Inr (''Behavior "'' @ n @ ''" stopped.''), s4)))\<close>

text \<open>
  \<^verbatim>\<open>for (const [name] of activeTimers) stopBehavior(name)\<close> iterates the live map while
  \<^verbatim>\<open>stopBehavior\<close> deletes the entry just visited; a \<^verbatim>\<open>Map\<close> iterator then goes on
  with the next entry that is still there, which is the new first entry.
\<close>

function stop_each :: "'b scheduler \<Rightarrow> 'b scheduler" where
  "stop_each s =
    (case activeTimers s of
       [] \<Rightarrow> s
     | kv # rest \<Rightarrow> stop_each (snd (stopBehavior (fst kv) s)))"
  by pat_completeness auto
termination
proof (relation "measure (\<lambda>s. length (activeTimers s))")
  show "wf (measure (\<lambda>s. length (activeTimers s)))" by simp
next
  fix s :: "'b scheduler" and kv rest
  assume a: "activeTimers s = kv # rest"
  show "(snd (stopBehavior (fst kv) s), s) \<in> measure (\<lambda>s. length (activeTimers s))"
    using a
    by (cases kv)
       (auto simp add: stopBehavior_def clearInterval_def Let_def less_Suc_eq_le
             split: option.splits)
qed

definition shutdownAutonomous :: "'b scheduler \<Rightarrow> 'b scheduler" where
  "shutdownAutonomous s = (stop_each s)\<lparr> bot := None \<rparr>"

definition startBehavior ::
  "'b BehaviorDef list \<Rightarrow> string \<Rightarrow> jsobj option \<Rightarrow> 'b scheduler \<Rightarrow> string js_result \<times> 'b scheduler"
where
  \<open>startBehavior defs n configOverrides s =
    (case bot s of
       None \<Rightarrow> (Inl ''Bot not connected.'', s)
     | Some b \<Rightarrow>
    (case find (\<lambda>d. name d = n) defs of
       None \<Rightarrow> (Inl (''Unknown behavior: '' @ n @ ''. Available: '' @ join '', '' (map name defs)), s)
     | Some d \<Rightarrow>
    (case map_of (activeTimers s) n of
       Some t \<Rightarrow>
        (case configOverrides of
           Some c \<Rightarrow>
            (case behaviorStates s n of
               None \<Rightarrow> (Inl ''Cannot convert undefined or null to object'', s)
             | Some a \<Rightarrow> (Inr (''Behavior "'' @ n @ ''" config updated.''),
                          s\<lparr> heap := (heap s)(a := heap s a ++ c) \<rparr>))
         | None \<Rightarrow> (Inr (''Behavior "'' @ n @ ''" is already running.''), s))
     | None \<Rightarrow>
        (let state = [''enabled'' \<mapsto> JBool True] ++ defaultConfig d
                       ++ (case configOverrides of None \<Rightarrow> Map.empty | Some c \<Rightarrow> c);
             a = next_addr s;
             s1 = s\<lparr> heap := (heap s)(a := state), next_addr := Suc a,
                     behaviorStates := (behaviorStates s)(n \<mapsto> a) \<rparr>;
             t = next_timer s1;
             s2 = s1\<lparr> intervals := intervals s1 @
                        [\<lparr> timer_id = t, timer_def = d, timer_state = a, timer_delay = interval d \<rparr>],
                      next_timer := Suc t \<rparr>;
             s3 = s2\<lparr> activeTimers := activeTimers s2 @ [(n, t)] \<rparr>;
             s4 = s3\<lparr> logger := logger s3 @ [(Info, ''[Auto] Started behavior: '' @ n)] \<rparr>
         in (Inr (''Behavior "'' @ n @ ''" started.''), s4)))))\<close>

record list_entry =
  entry_name :: string
  entry_description :: string
  running :: bool
  config :: jsobj

definition listBehaviors :: "'b BehaviorDef list \<Rightarrow> 'b scheduler \<Rightarrow> list_entry list js_result" where
  "listBehaviors defs s =
    Inr (map (\<lambda>d. \<lparr> entry_name = name d, entry_description = description d,
                   running = (map_of (activeTimers s) (name d) \<noteq> None),
                   config = (case behaviorStates s (name d) of
                               Some a \<Rightarrow> heap s a
                             | None \<Rightarrow> defaultConfig d) \<rparr>) defs)"

definition stopAllBehaviors :: "'b scheduler \<Rightarrow> string js_result \<times> 'b scheduler" where
  "stopAllBehaviors s =
    (let names = map fst (activeTimers s);
         s' = fold (\<lambda>n st. snd (stopBehavior n st)) names s
     in (Inr (if length names > 0 then ''Stopped: '' @ join '', '' names
              else ''No behaviors were running.''), s'))"

text \<open>
  One firing of an interval timer: the \<^verbatim>\<open>async\<close> callback given to \<^verbatim>\<open>setInterval\<close>.
  A timer that has been cleared does not fire.  The callback's own completion is the
  first component: it is what the host's timer queue gets back.  The \<^verbatim>\<open>catch\<close> block
  evaluates \<^verbatim>\<open>err.message\<close> before it logs; if that raises, nothing is logged and the
  callback's promise rejects with nobody to handle it.
\<close>

definition fire :: "nat \<Rightarrow> 'b scheduler \<Rightarrow> unit js_result \<times> 'b scheduler" where
  "fire tid s =
    (case find (\<lambda>t. timer_id t = tid) (intervals s) of
       None \<Rightarrow> (Inr (), s)
     | Some t \<Rightarrow>
    (case bot s of
       None \<Rightarrow> (Inr (), s)
     | Some b \<Rightarrow>
        if \<not> truthy (get_prop (heap s (timer_state t)) ''enabled'') then (Inr (), s)
        else
          (let r = tick (timer_def t) b (heap s (timer_state t));
               s1 = s\<lparr> bot := Some (bot_after r),
                       heap := (heap s)(timer_state t := config_after r),
                       logger := logger s @ tick_log r \<rparr>
           in case thrown r of
                None \<Rightarrow> (Inr (), s1)
              | Some err \<Rightarrow>
                  (case read_message err of
                     Inl e \<Rightarrow> (Inl e, s1)
                   | Inr msg \<Rightarrow>
                       (Inr (), s1\<lparr> logger := logger s1 @
                          [(Warn, ''[Auto:'' @ name (timer_def t) @ ''] '' @ msg)] \<rparr>)))))"

subsection \<open>The registry\<close>

text \<open>
  The five built-in behaviours, in the order of their \<^verbatim>\<open>behaviorDefs.push\<close> calls.  The
  tick bodies are given by \<open>ticks\<close>, indexed by behaviour name.
\<close>

definition behaviorDefs :: "(string \<Rightarrow> 'b \<Rightarrow> jsobj \<Rightarrow> 'b tick_result) \<Rightarrow> 'b BehaviorDef list" where
  "behaviorDefs ticks =
    [ \<lparr> name = ''auto_eat'',
        description = ''Automatically eat food when hunger drops below a threshold'',
        defaultConfig = [''threshold'' \<mapsto> JNum 14],
        tick = ticks ''auto_eat'', interval = 2000 \<rparr>,
      \<lparr> name = ''guard'',
        description = ''Attack hostile mobs that come within a radius'',
        defaultConfig = [''radius'' \<mapsto> JNum 16],
        tick = ticks ''guard'', interval = 500 \<rparr>,
      \<lparr> name = ''auto_collect'',
        description = ''Continuously find and mine a specific block type nearby'',
        defaultConfig = [''block'' \<mapsto> JStr ''oak_log'', ''radius'' \<mapsto> JNum 32,
                         ''pauseMs'' \<mapsto> JNum 1000],
        tick = ticks ''auto_collect'', interval = 3000 \<rparr>,
      \<lparr> name = ''auto_follow'',
        description = ''Continuously follow a specific player'',
        defaultConfig = [''player'' \<mapsto> JStr [], ''distance'' \<mapsto> JNum 3],
        tick = ticks ''auto_follow'', interval = 1000 \<rparr>,
      \<lparr> name = ''patrol'',
        description = ''Walk between a list of waypoints continuously'',
        defaultConfig = [''waypoints'' \<mapsto> JArr [], ''currentIndex'' \<mapsto> JNum 0,
                         ''waitMs'' \<mapsto> JNum 2000],
        tick = ticks ''patrol'', interval = 3000 \<rparr> ]"

subsection \<open>Runs of the scheduler\<close>

text \<open>
  Everything that can happen to the module state: a call of one of its exported
  functions, or the host firing one of the interval timers.
\<close>

datatype 'b sched_op =
    Init 'b
  | Shutdown
  | Start string "jsobj option"
  | Stop string
  | StopAll
  | Fire nat

fun step :: "'b BehaviorDef list \<Rightarrow> 'b sched_op \<Rightarrow> 'b scheduler \<Rightarrow> 'b scheduler" where
  "step defs (Init b) s = initAutonomous b s"
| "step defs Shutdown s = shutdownAutonomous s"
| "step defs (Start n c) s = snd (startBehavior defs n c s)"
| "step defs (Stop n) s = snd (stopBehavior n s)"
| "step defs StopAll s = snd (stopAllBehaviors s)"
| "step defs (Fire t) s = snd (fire t s)"

definition run :: "'b BehaviorDef list \<Rightarrow> 'b sched_op list \<Rightarrow> 'b scheduler \<Rightarrow> 'b scheduler" where
  "run defs ops s = fold (step defs) ops s"

text \<open>The number of live interval timers whose callback ticks behaviour \<open>n\<close>.\<close>

definition live_timers :: "string \<Rightarrow> 'b scheduler \<Rightarrow> nat" where
  "live_timers n s = length (filter (\<lambda>t. name (timer_def t) = n) (intervals s))"

text \<open>
  The invariant of the module state: the host's live timers are exactly the entries of
  \<^verbatim>\<open>activeTimers\<close>, in the same order; no name has two entries and no two timers share a handle; the state object a
  live timer closes over is the one \<^verbatim>\<open>behaviorStates\<close> holds for its name; every timer
  ticks the registry's definition of its name; distinct names have distinct state
  objects; and timers exist only while a bot is set.
\<close>

definition sched_inv :: "'b BehaviorDef list \<Rightarrow> 'b scheduler \<Rightarrow> bool" where
  "sched_inv defs s \<longleftrightarrow>
     map (\<lambda>t. (name (timer_def t), timer_id t)) (intervals s) = activeTimers s \<and>
     distinct (map fst (activeTimers s)) \<and>
     distinct (map timer_id (intervals s)) \<and>
     (\<forall>t \<in> set (intervals s).
        timer_id t < next_timer s \<and>
        behaviorStates s (name (timer_def t)) = Some (timer_state t) \<and>
        find (\<lambda>d. name d = name (timer_def t)) defs = Some (timer_def t)) \<and>
     (\<forall>n a. behaviorStates s n = Some a \<longrightarrow> a < next_addr s) \<and>
     (\<forall>n m a. behaviorStates s n = Some a \<longrightarrow> behaviorStates s m = Some a \<longrightarrow> n = m) \<and>
     (bot s = None \<longrightarrow> activeTimers s = [])"

subsection \<open>Auxiliary notions for stating the properties\<close>

text \<open>A run in which \<^verbatim>\<open>initAutonomous\<close> is not called.\<close>

definition no_init :: "'b sched_op list \<Rightarrow> bool" where
  "no_init ops = list_all (\<lambda>x. case x of Init b \<Rightarrow> False | _ \<Rightarrow> True) ops"

text \<open>\<^verbatim>\<open>behaviorStates.get(n)?.[k]\<close>: a field of the run-state kept for behaviour \<open>n\<close>.\<close>

definition config_value :: "string \<Rightarrow> string \<Rightarrow> 'b scheduler \<Rightarrow> jsval" where
  "config_value n k s =
    (case behaviorStates s n of None \<Rightarrow> JUndefined | Some a \<Rightarrow> get_prop (heap s a) k)"

text \<open>Two sample tick functions: one that does nothing, one that throws the value \<open>v\<close>.\<close>

definition idle_tick :: "'b \<Rightarrow> jsobj \<Rightarrow> 'b tick_result" where
  "idle_tick b c = \<lparr> thrown = None, bot_after = b, config_after = c, tick_log = [] \<rparr>"



section \<open>The session manager (mc-bot.ts)\<close>

text \<open>
  The revision of \<^verbatim>\<open>mc-bot.ts\<close> that is wired to the scheduler (it imports
  \<^verbatim>\<open>initAutonomous\<close> and \<^verbatim>\<open>shutdownAutonomous\<close>; in the sources it follows
  \<^verbatim>\<open>autonomous.ts\<close> in the same file).  A bot instance made by
  \<^verbatim>\<open>mineflayer.createBot\<close> is identified by a number; what can be read from it at the
  moment (health, food, position, ...) is the world's business and comes in as a
  function \<open>view\<close> from instances to readings, each of which may be missing.
\<close>

record McConfig =
  host :: string
  port :: nat
  username :: string
  version :: string

datatype BotStatus = disconnected | connecting | connected

record BotState =
  status :: BotStatus
  health :: real
  food :: real
  position :: "(real \<times> real \<times> real) option"
  dimension :: "string option"
  experience :: real
  gameMode :: string

record bot_view =
  view_health :: "real option"
  view_food :: "real option"
  view_position :: "(real \<times> real \<times> real) option"
  view_dimension :: "string option"
  view_level :: "real option"
  view_gameMode :: "string option"

text \<open>Decimal digits of a natural number, as a template literal prints it.\<close>

fun show_nat :: "nat \<Rightarrow> string" where
  "show_nat n =
    (if n < 10 then [''0123456789'' ! n] else show_nat (n div 10) @ [''0123456789'' ! (n mod 10)])"

declare show_nat.simps [simp del]

text \<open>\<^verbatim>\<open>Math.round(v * 10) / 10\<close>; \<^verbatim>\<open>Math.round\<close> rounds halves upwards.\<close>

definition round10 :: "real \<Rightarrow> real" where
  "round10 v = real_of_int \<lfloor>v * 10 + 1 / 2\<rfloor> / 10"

text \<open>
  The module state: \<^verbatim>\<open>bot\<close> (here \<open>mc_bot\<close>, since the scheduler's \<^verbatim>\<open>_bot\<close> already
  has that name), \<^verbatim>\<open>currentStatus\<close>, what was written to \<^verbatim>\<open>logger\<close>, and the
  scheduler module.  Around it: the instances created so far, those whose
  \<^verbatim>\<open>once("spawn")\<close> handler has run, those on which \<^verbatim>\<open>quit()\<close> was called, and the
  promises of \<^verbatim>\<open>connect\<close> calls that have been settled (a promise settles once).
\<close>

record session =
  mc_bot :: "nat option"
  currentStatus :: BotStatus
  mc_logger :: "log_line list"
  created :: "nat list"
  spawned :: "nat list"
  quit_calls :: "nat list"
  settled :: "nat \<rightharpoonup> BotState js_result"
  auto :: "nat scheduler"

definition session0 :: session where
  "session0 = \<lparr> mc_bot = None, currentStatus = disconnected, mc_logger = [], created = [],
     spawned = [], quit_calls = [], settled = Map.empty, auto = scheduler0 \<rparr>"

definition snapshot :: "(nat \<Rightarrow> bot_view) \<Rightarrow> session \<Rightarrow> BotState" where
  "snapshot view s =
    (case mc_bot s of
       None \<Rightarrow> \<lparr> status = disconnected, health = 0, food = 0, position = None,
                  dimension = None, experience = 0, gameMode = ''unknown'' \<rparr>
     | Some b \<Rightarrow>
         \<lparr> status = currentStatus s,
           health = round10 (case view_health (view b) of None \<Rightarrow> 0 | Some h \<Rightarrow> h),
           food = (case view_food (view b) of None \<Rightarrow> 0 | Some f \<Rightarrow> f),
           position = (case view_position (view b) of
                         None \<Rightarrow> None
                       | Some (x, y, z) \<Rightarrow> Some (round10 x, round10 y, round10 z)),
           dimension = view_dimension (view b),
           experience = (case view_level (view b) of None \<Rightarrow> 0 | Some l \<Rightarrow> l),
           gameMode = (case view_gameMode (view b) of None \<Rightarrow> ''unknown'' | Some g \<Rightarrow> g) \<rparr>)"

text \<open>
  \<^verbatim>\<open>connect\<close> returns a promise.  It is either resolved on the spot, or it is the
  promise of a freshly created instance, settled later by that instance's
  \<^verbatim>\<open>spawn\<close> or \<^verbatim>\<open>error\<close> handler.
\<close>

datatype connect_outcome = Resolved BotState | Pending nat

definition settle :: "nat \<Rightarrow> BotState js_result \<Rightarrow> session \<Rightarrow> session" where
  "settle i r s = (case settled s i of None \<Rightarrow> s\<lparr> settled := (settled s)(i \<mapsto> r) \<rparr> | Some r' \<Rightarrow> s)"

definition connect :: "(nat \<Rightarrow> bot_view) \<Rightarrow> McConfig \<Rightarrow> session \<Rightarrow> connect_outcome \<times> session" where
  "connect view cfg s =
    (case mc_bot s of
       Some b \<Rightarrow> (Resolved (snapshot view s), s)
     | None \<Rightarrow>
        (let s1 = s\<lparr> currentStatus := connecting \<rparr>;
             s2 = s1\<lparr> mc_logger := mc_logger s1 @
                     [(Info, ''[MC] Connecting to '' @ host cfg @ '':'' @ show_nat (port cfg) @ '' as ''
                               @ username cfg @ '' (v'' @ version cfg @ '')...'')] \<rparr>;
             b = length (created s2);
             s3 = s2\<lparr> created := created s2 @ [b] \<rparr>
         in (Pending b, s3)))"

text \<open>The four handlers \<^verbatim>\<open>connect\<close> registers on the instance \<open>b\<close> it created.\<close>

definition on_spawn :: "(nat \<Rightarrow> bot_view) \<Rightarrow> nat \<Rightarrow> string \<Rightarrow> session \<Rightarrow> session" where
  "on_spawn view b uname s =
    (if b \<in> set (spawned s) then s
     else
       (let s1 = s\<lparr> spawned := spawned s @ [b], mc_bot := Some b, currentStatus := connected \<rparr>;
            s2 = s1\<lparr> mc_logger := mc_logger s1 @ [(Info, ''[MC] Bot spawned as '' @ uname)] \<rparr>;
            s3 = s2\<lparr> auto := initAutonomous b (auto s2) \<rparr>
        in settle b (Inr (snapshot view s3)) s3))"

definition on_error :: "nat \<Rightarrow> string \<Rightarrow> session \<Rightarrow> session" where
  "on_error b msg s =
    (let s1 = s\<lparr> mc_logger := mc_logger s @ [(Error, ''[MC] Error: '' @ msg)] \<rparr>
     in if currentStatus s1 = connecting
        then settle b (Inl msg) (s1\<lparr> currentStatus := disconnected \<rparr>)
        else s1)"

definition on_end :: "nat \<Rightarrow> string \<Rightarrow> session \<Rightarrow> session" where
  "on_end b reason s =
    (let s1 = s\<lparr> mc_logger := mc_logger s @ [(Warn, ''[MC] Disconnected: '' @ reason)] \<rparr>;
         s2 = s1\<lparr> auto := shutdownAutonomous (auto s1) \<rparr>
     in s2\<lparr> mc_bot := None, currentStatus := disconnected \<rparr>)"

definition on_kicked :: "nat \<Rightarrow> string \<Rightarrow> session \<Rightarrow> session" where
  "on_kicked b reason s = s\<lparr> mc_logger := mc_logger s @ [(Warn, ''[MC] Kicked: '' @ reason)] \<rparr>"

definition disconnect :: "session \<Rightarrow> string js_result \<times> session" where
  "disconnect s =
    (case mc_bot s of
       None \<Rightarrow> (Inr ''Already disconnected.'', s)
     | Some b \<Rightarrow>
        (let s1 = s\<lparr> auto := shutdownAutonomous (auto s) \<rparr>;
             s2 = s1\<lparr> quit_calls := quit_calls s1 @ [b] \<rparr>
         in (Inr ''Disconnected.'', s2\<lparr> mc_bot := None, currentStatus := disconnected \<rparr>)))"

text \<open>
  What can happen to a session: calls from the tool and command adapters, events of
  an instance that exists (a handler is only ever registered on a created instance),
  and timer firings.
\<close>

datatype session_event =
    Connect McConfig
  | Disconnect
  | Spawn nat string
  | Failure nat string
  | End nat string
  | Kicked nat string
  | BehaviorStart string "jsobj option"
  | BehaviorStop string
  | BehaviorStopAll
  | TimerFire nat

fun session_step ::
  "nat BehaviorDef list \<Rightarrow> (nat \<Rightarrow> bot_view) \<Rightarrow> session_event \<Rightarrow> session \<Rightarrow> session" where
  "session_step defs view (Connect cfg) s = snd (connect view cfg s)"
| "session_step defs view Disconnect s = snd (disconnect s)"
| "session_step defs view (Spawn b u) s = (if b \<in> set (created s) then on_spawn view b u s else s)"
| "session_step defs view (Failure b m) s = (if b \<in> set (created s) then on_error b m s else s)"
| "session_step defs view (End b r) s = (if b \<in> set (created s) then on_end b r s else s)"
| "session_step defs view (Kicked b r) s = (if b \<in> set (created s) then on_kicked b r s else s)"
| "session_step defs view (BehaviorStart n c) s = s\<lparr> auto := snd (startBehavior defs n c (auto s)) \<rparr>"
| "session_step defs view (BehaviorStop n) s = s\<lparr> auto := snd (stopBehavior n (auto s)) \<rparr>"
| "session_step defs view BehaviorStopAll s = s\<lparr> auto := snd (stopAllBehaviors (auto s)) \<rparr>"
| "session_step defs view (TimerFire t) s = s\<lparr> auto := snd (fire t (auto s)) \<rparr>"

definition session_run ::
  "nat BehaviorDef list \<Rightarrow> (nat \<Rightarrow> bot_view) \<Rightarrow> session_event list \<Rightarrow> session \<Rightarrow> session" where
  "session_run defs view evs s = fold (session_step defs view) evs s"

text \<open>The names \<^verbatim>\<open>listBehaviors\<close> reports as running.\<close>

definition running_names :: "'b BehaviorDef list \<Rightarrow> 'b scheduler \<Rightarrow> string list" where
  "running_names defs s =
    (case listBehaviors defs s of
       Inl e \<Rightarrow> []
     | Inr entries \<Rightarrow> map entry_name (filter running entries))"

subsection \<open>The earlier revision\<close>

text \<open>
  The repository also holds an earlier revision of \<^verbatim>\<open>mc-bot.ts\<close>, which does not import
  the scheduler: its \<^verbatim>\<open>spawn\<close> handler does not call \<^verbatim>\<open>initAutonomous\<close>, and its
  \<^verbatim>\<open>end\<close> handler and \<^verbatim>\<open>disconnect\<close> do not call \<^verbatim>\<open>shutdownAutonomous\<close>.
  \<^verbatim>\<open>connect\<close> and the other two handlers are the same.
\<close>

definition on_spawn_v1 :: "(nat \<Rightarrow> bot_view) \<Rightarrow> nat \<Rightarrow> string \<Rightarrow> session \<Rightarrow> session" where
  "on_spawn_v1 view b uname s =
    (if b \<in> set (spawned s) then s
     else
       (let s1 = s\<lparr> spawned := spawned s @ [b], mc_bot := Some b, currentStatus := connected \<rparr>;
            s2 = s1\<lparr> mc_logger := mc_logger s1 @ [(Info, ''[MC] Bot spawned as '' @ uname)] \<rparr>
        in settle b (Inr (snapshot view s2)) s2))"

definition on_end_v1 :: "nat \<Rightarrow> string \<Rightarrow> session \<Rightarrow> session" where
  "on_end_v1 b reason s =
    (let s1 = s\<lparr> mc_logger := mc_logger s @ [(Warn, ''[MC] Disconnected: '' @ reason)] \<rparr>
     in s1\<lparr> mc_bot := None, currentStatus := disconnected \<rparr>)"

definition disconnect_v1 :: "session \<Rightarrow> string js_result \<times> session" where
  "disconnect_v1 s =
    (case mc_bot s of
       None \<Rightarrow> (Inr ''Already disconnected.'', s)
     | Some b \<Rightarrow>
        (let s1 = s\<lparr> quit_calls := quit_calls s @ [b] \<rparr>
         in (Inr ''Disconnected.'', s1\<lparr> mc_bot := None, currentStatus := disconnected \<rparr>)))"

fun session_step_v1 ::
  "nat BehaviorDef list \<Rightarrow> (nat \<Rightarrow> bot_view) \<Rightarrow> session_event \<Rightarrow> session \<Rightarrow> session" where
  "session_step_v1 defs view (Connect cfg) s = snd (connect view cfg s)"
| "session_step_v1 defs view Disconnect s = snd (disconnect_v1 s)"
| "session_step_v1 defs view (Spawn b u) s = (if b \<in> set (created s) then on_spawn_v1 view b u s else s)"
| "session_step_v1 defs view (Failure b m) s = (if b \<in> set (created s) then on_error b m s else s)"
| "session_step_v1 defs view (End b r) s = (if b \<in> set (created s) then on_end_v1 b r s else s)"
| "session_step_v1 defs view (Kicked b r) s = (if b \<in> set (created s) then on_kicked b r s else s)"
| "session_step_v1 defs view (BehaviorStart n c) s = s\<lparr> auto := snd (startBehavior defs n c (auto s)) \<rparr>"
| "session_step_v1 defs view (BehaviorStop n) s = s\<lparr> auto := snd (stopBehavior n (auto s)) \<rparr>"
| "session_step_v1 defs view BehaviorStopAll s = s\<lparr> auto := snd (stopAllBehaviors (auto s)) \<rparr>"
| "session_step_v1 defs view (TimerFire t) s = s\<lparr> auto := snd (fire t (auto s)) \<rparr>"

definition session_run_v1 ::
  "nat BehaviorDef list \<Rightarrow> (nat \<Rightarrow> bot_view) \<Rightarrow> session_event list \<Rightarrow> session \<Rightarrow> session" where
  "session_run_v1 defs view evs s = fold (session_step_v1 defs view) evs s"

text \<open>A sample world in which nothing can be read from any instance.\<close>

definition blank_view :: "nat \<Rightarrow> bot_view" where
  "blank_view b = \<lparr> view_health = None, view_food = None, view_position = None,
     view_dimension = None, view_level = None, view_gameMode = None \<rparr>"

definition local_cfg :: McConfig where
  "local_cfg = \<lparr> host = ''localhost'', port = 25565, username = ''OpenClaw'', version = ''1.20.4'' \<rparr>"


section \<open>The actions (mc-bot.ts)\<close>

text \<open>
  The actions of the same revision of \<^verbatim>\<open>mc-bot.ts\<close> as above (in the earlier one
  \<^verbatim>\<open>moveTo\<close> only sets the goal and \<^verbatim>\<open>digAt\<close> does not navigate; there is no
  \<^verbatim>\<open>waitForGoal\<close>).  They drive one bot through the mineflayer API.  Here the bot is seen together
  with the world it lives in: a value of type \<open>'w\<close>, read and changed only through the
  API, which the model takes as a record of functions.  An awaited primitive returns
  its completion and the world as it is then.  \<open>next_nav_event\<close> says what happens
  while \<^verbatim>\<open>waitForGoal\<close> is pending: which of \<^verbatim>\<open>goal_reached\<close>, \<^verbatim>\<open>path_stop\<close> and the
  timeout comes first, and the world at that moment (it may have changed in any way
  during the transit).  \<open>num_str\<close> and \<open>vec_str\<close> are the conversions a template
  literal applies to a number and to a \<^verbatim>\<open>Vec3\<close>.
\<close>

type_synonym vec3 = "real \<times> real \<times> real"

record Block =
  block_name :: string
  block_position :: vec3

datatype goal = GoalNear vec3 real

datatype nav_event = goal_reached | path_stop | timed_out

record 'w mineflayer =
  blockAt :: "'w \<Rightarrow> vec3 \<Rightarrow> Block option"
  distanceTo :: "'w \<Rightarrow> vec3 \<Rightarrow> real"
  setGoal :: "goal \<Rightarrow> 'w \<Rightarrow> 'w"
  next_nav_event :: "'w \<Rightarrow> nav_event \<times> 'w"
  pathfinder_stop :: "'w \<Rightarrow> 'w"
  dig :: "Block \<Rightarrow> 'w \<Rightarrow> unit js_result \<times> 'w"
  face_vector :: "'w \<Rightarrow> Block \<Rightarrow> vec3"
  place :: "Block \<Rightarrow> vec3 \<Rightarrow> 'w \<Rightarrow> unit js_result \<times> 'w"
  blocksByName :: "string \<Rightarrow> nat option"
  itemsByName :: "string \<Rightarrow> nat option"
  findBlocks :: "'w \<Rightarrow> nat \<Rightarrow> real \<Rightarrow> real \<Rightarrow> vec3 list"
  findBlock :: "'w \<Rightarrow> nat option \<Rightarrow> real \<Rightarrow> Block option"
  recipesFor :: "'w \<Rightarrow> nat \<Rightarrow> Block option \<Rightarrow> nat list"
  craft :: "nat \<Rightarrow> real \<Rightarrow> Block option \<Rightarrow> 'w \<Rightarrow> unit js_result \<times> 'w"
  num_str :: "real \<Rightarrow> string"
  vec_str :: "vec3 \<Rightarrow> string"

definition getBotOrThrow :: "'w option \<Rightarrow> 'w js_result" where
  "getBotOrThrow bot_var =
    (case bot_var of
       None \<Rightarrow> Inl ''Minecraft bot is not connected. Use minecraft_connect first.''
     | Some b \<Rightarrow> Inr b)"

text \<open>
  \<^verbatim>\<open>waitForGoal\<close>: the timer callback stops the pathfinder and rejects; either event
  resolves.  (\<^verbatim>\<open>pathfinder.stop()\<close> only requests the stop, so the rejection is what
  settles the promise.)
\<close>

definition waitForGoal :: "'w mineflayer \<Rightarrow> 'w \<Rightarrow> unit js_result \<times> 'w" where
  "waitForGoal api b =
    (case next_nav_event api b of
       (timed_out, b') \<Rightarrow> (Inl ''Pathfinding timed out.'', pathfinder_stop api b')
     | (goal_reached, b') \<Rightarrow> (Inr (), b')
     | (path_stop, b') \<Rightarrow> (Inr (), b'))"

definition navigateTo :: "'w mineflayer \<Rightarrow> vec3 \<Rightarrow> real \<Rightarrow> 'w \<Rightarrow> unit js_result \<times> 'w" where
  "navigateTo api pos rng b =
    (let d = distanceTo api b pos
     in if d \<le> rng + 1 then (Inr (), b)
        else waitForGoal api (setGoal api (GoalNear pos rng) b))"

definition moveTo ::
  "'w mineflayer \<Rightarrow> real \<Rightarrow> real \<Rightarrow> real \<Rightarrow> 'w option \<Rightarrow> string js_result \<times> 'w option" where
  "moveTo api x y z bot_var =
    (case getBotOrThrow bot_var of
       Inl e \<Rightarrow> (Inl e, bot_var)
     | Inr b \<Rightarrow>
        (let target = (x, y, z);
             b1 = setGoal api (GoalNear target 1) b
         in case waitForGoal api b1 of
              (Inl e, b2) \<Rightarrow> (Inl e, Some b2)
            | (Inr u, b2) \<Rightarrow>
                (let d = round10 (distanceTo api b2 target)
                 in (Inr (''Arrived near '' @ num_str api x @ '', '' @ num_str api y @ '', ''
                          @ num_str api z @ '' (distance: '' @ num_str api d @ '').''),
                     Some b2))))"

definition digAt ::
  "'w mineflayer \<Rightarrow> real \<Rightarrow> real \<Rightarrow> real \<Rightarrow> 'w option \<Rightarrow> string js_result \<times> 'w option" where
  "digAt api x y z bot_var =
    (case getBotOrThrow bot_var of
       Inl e \<Rightarrow> (Inl e, bot_var)
     | Inr b \<Rightarrow>
        (let target = (x, y, z)
         in case blockAt api b target of
              None \<Rightarrow> (Inl ''No solid block at that position.'', Some b)
            | Some block \<Rightarrow>
                if block_name block = ''air'' then (Inl ''No solid block at that position.'', Some b)
                else
                  (case navigateTo api target 4 b of
                     (Inl e, b1) \<Rightarrow> (Inl e, Some b1)
                   | (Inr u, b1) \<Rightarrow>
                      (case dig api block b1 of
                         (Inl e, b2) \<Rightarrow> (Inl e, Some b2)
                       | (Inr u', b2) \<Rightarrow>
                           (Inr (''Dug '' @ block_name block @ '' at '' @ num_str api x @ '', ''
                                 @ num_str api y @ '', '' @ num_str api z @ ''.''),
                            Some b2)))))"

definition placeBlock ::
  "'w mineflayer \<Rightarrow> real \<Rightarrow> real \<Rightarrow> real \<Rightarrow> 'w option \<Rightarrow> string js_result \<times> 'w option" where
  "placeBlock api x y z bot_var =
    (case getBotOrThrow bot_var of
       Inl e \<Rightarrow> (Inl e, bot_var)
     | Inr b \<Rightarrow>
        (let target = (x, y, z)
         in case blockAt api b target of
              None \<Rightarrow> (Inl ''No reference block at that position.'', Some b)
            | Some refBlock \<Rightarrow>
                (case navigateTo api target 4 b of
                   (Inl e, b1) \<Rightarrow> (Inl e, Some b1)
                 | (Inr u, b1) \<Rightarrow>
                    (let faceVec = face_vector api b1 refBlock
                     in case place api refBlock faceVec b1 of
                          (Inl e, b2) \<Rightarrow> (Inl e, Some b2)
                        | (Inr u', b2) \<Rightarrow> (Inr ''Block placed.'', Some b2)))))"

text \<open>
  The body of the \<^verbatim>\<open>for (const pos of positions)\<close> loop of \<^verbatim>\<open>collectBlock\<close>, with the
  counter, the bot and the log lines written so far.  The \<^verbatim>\<open>try\<close> covers the
  navigation, the second \<^verbatim>\<open>blockAt\<close> and the dig; its \<^verbatim>\<open>catch\<close> logs a warning and
  the loop goes on.
\<close>

fun collect_loop ::
  "'w mineflayer \<Rightarrow> real \<Rightarrow> vec3 list \<Rightarrow> nat \<Rightarrow> 'w \<Rightarrow> log_line list \<Rightarrow> nat \<times> 'w \<times> log_line list"
where
  "collect_loop api count [] collected b lg = (collected, b, lg)"
| "collect_loop api count (pos # rest) collected b lg =
    (case blockAt api b pos of
       None \<Rightarrow> collect_loop api count rest collected b lg
     | Some block \<Rightarrow>
        if block_name block = ''air'' then collect_loop api count rest collected b lg
        else
          (case navigateTo api pos 4 b of
             (Inl e, b1) \<Rightarrow>
               collect_loop api count rest collected b1
                 (lg @ [(Warn, ''[MC] Failed to collect at '' @ vec_str api pos @ '': '' @ e)])
           | (Inr u, b1) \<Rightarrow>
              (case blockAt api b1 pos of
                 None \<Rightarrow> collect_loop api count rest collected b1 lg
               | Some freshBlock \<Rightarrow>
                  if block_name freshBlock = ''air'' then collect_loop api count rest collected b1 lg
                  else
                    (case dig api freshBlock b1 of
                       (Inl e, b2) \<Rightarrow>
                         collect_loop api count rest collected b2
                           (lg @ [(Warn, ''[MC] Failed to collect at '' @ vec_str api pos @ '': '' @ e)])
                     | (Inr u', b2) \<Rightarrow>
                         collect_loop api count rest (Suc collected) b2
                           (lg @ [(Info, ''[MC] Collected '' @ block_name freshBlock @ '' (''
                                    @ show_nat (Suc collected) @ ''/'' @ num_str api count @ '')'')])))))"

definition collectBlock ::
  "'w mineflayer \<Rightarrow> string \<Rightarrow> real \<Rightarrow> 'w option \<Rightarrow> log_line list
     \<Rightarrow> string js_result \<times> 'w option \<times> log_line list" where
  "collectBlock api blockName count bot_var lg =
    (case getBotOrThrow bot_var of
       Inl e \<Rightarrow> (Inl e, bot_var, lg)
     | Inr b \<Rightarrow>
        (case blocksByName api blockName of
           None \<Rightarrow> (Inl (''Unknown block type: '' @ blockName), Some b, lg)
         | Some blockType \<Rightarrow>
            (let positions = findBlocks api b blockType 64 count
             in if length positions = 0
                then (Inl (''No '' @ blockName @ '' found within 64 blocks.''), Some b, lg)
                else
                  (case collect_loop api count positions 0 b lg of
                     (collected, b', lg') \<Rightarrow>
                       (Inr (''Collected '' @ show_nat collected @ ''/'' @ show_nat (length positions)
                             @ '' '' @ blockName @ ''.''),
                        Some b', lg')))))"

definition craftItem ::
  "'w mineflayer \<Rightarrow> string \<Rightarrow> real \<Rightarrow> 'w option \<Rightarrow> string js_result \<times> 'w option" where
  "craftItem api itemName count bot_var =
    (case getBotOrThrow bot_var of
       Inl e \<Rightarrow> (Inl e, bot_var)
     | Inr b \<Rightarrow>
        (case itemsByName api itemName of
           None \<Rightarrow> (Inl (''Unknown item: '' @ itemName), Some b)
         | Some itemType \<Rightarrow>
            (case recipesFor api b itemType None of
               r # rs \<Rightarrow>
                 (case craft api r count None b of
                    (Inl e, b2) \<Rightarrow> (Inl e, Some b2)
                  | (Inr u, b2) \<Rightarrow>
                      (Inr (''Crafted '' @ itemName @ '' x'' @ num_str api count @ ''.''), Some b2))
             | [] \<Rightarrow>
                 (case findBlock api b (blocksByName api ''crafting_table'') 32 of
                    None \<Rightarrow>
                      (Inl (''No available recipe for '' @ itemName @
                            ''. No crafting table nearby (need one within 32 blocks for complex recipes).''),
                       Some b)
                  | Some tableBlock \<Rightarrow>
                     (case navigateTo api (block_position tableBlock) 3 b of
                        (Inl e, b1) \<Rightarrow> (Inl e, Some b1)
                      | (Inr u, b1) \<Rightarrow>
                         (case recipesFor api b1 itemType (Some tableBlock) of
                            [] \<Rightarrow>
                              (Inl (''No available recipe for '' @ itemName @ '' (missing materials?).''),
                               Some b1)
                          | r # rs \<Rightarrow>
                             (case craft api r count (Some tableBlock) b1 of
                                (Inl e, b2) \<Rightarrow> (Inl e, Some b2)
                              | (Inr u', b2) \<Rightarrow>
                                  (Inr (''Crafted '' @ itemName @ '' x'' @ num_str api count @ ''.''),
                                   Some b2))))))))"

text \<open>Navigation towards goal \<open>g\<close>, started in world \<open>b\<close>, ends by the timeout.\<close>

definition nav_times_out :: "'w mineflayer \<Rightarrow> goal \<Rightarrow> 'w \<Rightarrow> bool" where
  "nav_times_out api g b \<longleftrightarrow> fst (next_nav_event api (setGoal api g b)) = timed_out"

subsection \<open>A sample world\<close>

text \<open>
  A small world for evaluating the actions: the bot is 20 blocks from everything until
  a navigation has ended and 3 blocks afterwards; there is stone at every position
  until \<open>mined\<close> is set and air afterwards; every dig and placement succeeds and is
  recorded.  What a pending navigation ends with, and whether somebody else mines the
  stone in the meantime, is fixed by the two parameters of \<open>sample_api\<close>.
\<close>

record sample_world =
  arrived :: bool
  mined :: bool
  goals :: "goal list"
  stops :: nat
  dug :: "Block list"

definition sample_world0 :: sample_world where
  "sample_world0 = \<lparr> arrived = False, mined = False, goals = [], stops = 0, dug = [] \<rparr>"

definition sample_api :: "nav_event \<Rightarrow> bool \<Rightarrow> sample_world mineflayer" where
  "sample_api ev mined_meanwhile =
    \<lparr> blockAt = (\<lambda>w pos. Some \<lparr> block_name = (if mined w then ''air'' else ''stone''),
                                 block_position = pos \<rparr>),
      distanceTo = (\<lambda>w pos. if arrived w then 3 else 20),
      setGoal = (\<lambda>g w. w\<lparr> goals := goals w @ [g] \<rparr>),
      next_nav_event = (\<lambda>w. (ev, w\<lparr> arrived := (ev = goal_reached), mined := mined_meanwhile \<rparr>)),
      pathfinder_stop = (\<lambda>w. w\<lparr> stops := Suc (stops w) \<rparr>),
      dig = (\<lambda>blk w. (Inr (), w\<lparr> dug := dug w @ [blk], mined := True \<rparr>)),
      face_vector = (\<lambda>w blk. (0, 1, 0)),
      place = (\<lambda>blk v w. (Inr (), w)),
      blocksByName = (\<lambda>n. if n = ''stone'' then Some 1 else None),
      itemsByName = (\<lambda>n. if n = ''stick'' then Some 2 else None),
      findBlocks = (\<lambda>w t far cnt. [(1, 64, 1)]),
      findBlock = (\<lambda>w t far. None),
      recipesFor = (\<lambda>w i tbl. []),
      craft = (\<lambda>r cnt tbl w. (Inr (), w)),
      num_str = (\<lambda>r. show_nat (nat \<lfloor>r\<rfloor>)),
      vec_str = (\<lambda>v. case v of (x, y, z) \<Rightarrow>
                   ''('' @ show_nat (nat \<lfloor>x\<rfloor>) @ '', '' @ show_nat (nat \<lfloor>y\<rfloor>) @ '', ''
                   @ show_nat (nat \<lfloor>z\<rfloor>) @ '')'') \<rparr>"


section \<open>The chat-command handler (chat-commands.ts)\<close>

text \<open>
  Strings are byte strings here; \<^verbatim>\<open>trim\<close>, \<^verbatim>\<open>split(/\s+/)\<close> and \<^verbatim>\<open>toLowerCase\<close> are
  modelled on ASCII (the six ASCII white-space characters, the letters A to Z).  Of a
  command the table keeps the name, the aliases, the usage line and the owner-only
  flag; the description is left out.
\<close>

definition is_space :: "char \<Rightarrow> bool" where
  "is_space c \<longleftrightarrow> c \<in> set [CHR '' '', CHR 0x09, CHR 0x0A, CHR 0x0B, CHR 0x0C, CHR 0x0D]"

definition startsWith :: "string \<Rightarrow> string \<Rightarrow> bool" where
  "startsWith s p \<longleftrightarrow> take (length p) s = p"

definition trim :: "string \<Rightarrow> string" where
  "trim s = rev (dropWhile is_space (rev (dropWhile is_space s)))"

text \<open>
  \<^verbatim>\<open>s.split(/\s+/)\<close>: the pieces between maximal runs of white space; the empty string
  gives one empty piece.  The first argument collects the current piece, reversed.
\<close>

function split_ws :: "string \<Rightarrow> string \<Rightarrow> string list" where
  "split_ws cur [] = [rev cur]"
| "split_ws cur (c # cs) =
    (if is_space c then rev cur # split_ws [] (dropWhile is_space cs)
     else split_ws (c # cur) cs)"
  by pat_completeness auto
termination
  by (relation "measure (\<lambda>(cur, s). length s)") (auto simp: less_Suc_eq_le length_dropWhile_le)

definition toLowerCase :: "string \<Rightarrow> string" where
  "toLowerCase s =
    map (\<lambda>c. case map_of (zip ''ABCDEFGHIJKLMNOPQRSTUVWXYZ'' ''abcdefghijklmnopqrstuvwxyz'') c of
                None \<Rightarrow> c
              | Some l \<Rightarrow> l) s"

record ChatCommand =
  cmd_name :: string
  aliases :: "string list"
  usage :: string
  ownerOnly :: bool

text \<open>
  The command table, in source order.  A command without \<^verbatim>\<open>aliases\<close> has none, and
  one without \<^verbatim>\<open>ownerOnly\<close> is not owner-only.
\<close>

definition commands :: "ChatCommand list" where
  "commands =
    [ \<lparr> cmd_name = ''help'', aliases = [''h'', ''?''], usage = ''!help [command]'', ownerOnly = False \<rparr>,
      \<lparr> cmd_name = ''status'', aliases = [''stat'', ''info''], usage = ''!status'', ownerOnly = False \<rparr>,
      \<lparr> cmd_name = ''players'', aliases = [''who'', ''online''], usage = ''!players'', ownerOnly = False \<rparr>,
      \<lparr> cmd_name = ''time'', aliases = [], usage = ''!time'', ownerOnly = False \<rparr>,
      \<lparr> cmd_name = ''weather'', aliases = [], usage = ''!weather'', ownerOnly = False \<rparr>,
      \<lparr> cmd_name = ''come'', aliases = [''here''], usage = ''!come'', ownerOnly = False \<rparr>,
      \<lparr> cmd_name = ''goto'', aliases = [''go'', ''move''], usage = ''!goto <x> <y> <z>'', ownerOnly = False \<rparr>,
      \<lparr> cmd_name = ''follow'', aliases = [''stalk''], usage = ''!follow [player]'', ownerOnly = False \<rparr>,
      \<lparr> cmd_name = ''stop'', aliases = [''halt'', ''cancel''], usage = ''!stop'', ownerOnly = False \<rparr>,
      \<lparr> cmd_name = ''jump'', aliases = [], usage = ''!jump'', ownerOnly = False \<rparr>,
      \<lparr> cmd_name = ''look'', aliases = [], usage = ''!look [player]'', ownerOnly = False \<rparr>,
      \<lparr> cmd_name = ''dig'', aliases = [''mine'', ''break''], usage = ''!dig'', ownerOnly = False \<rparr>,
      \<lparr> cmd_name = ''digat'', aliases = [], usage = ''!digat <x> <y> <z>'', ownerOnly = False \<rparr>,
      \<lparr> cmd_name = ''collect'', aliases = [''gather''], usage = ''!collect <block> [count]'', ownerOnly = False \<rparr>,
      \<lparr> cmd_name = ''place'', aliases = [], usage = ''!place <x> <y> <z>'', ownerOnly = False \<rparr>,
      \<lparr> cmd_name = ''inventory'', aliases = [''inv'', ''items''], usage = ''!inventory'', ownerOnly = False \<rparr>,
      \<lparr> cmd_name = ''equip'', aliases = [], usage = ''!equip <item> [hand|head|torso|legs|feet]'', ownerOnly = False \<rparr>,
      \<lparr> cmd_name = ''toss'', aliases = [''drop'', ''throw''], usage = ''!toss <item> [count]'', ownerOnly = False \<rparr>,
      \<lparr> cmd_name = ''hold'', aliases = [''select''], usage = ''!hold <item>'', ownerOnly = False \<rparr>,
      \<lparr> cmd_name = ''craft'', aliases = [], usage = ''!craft <item> [count]'', ownerOnly = False \<rparr>,
      \<lparr> cmd_name = ''attack'', aliases = [''fight'', ''kill''], usage = ''!attack [target]'', ownerOnly = False \<rparr>,
      \<lparr> cmd_name = ''flee'', aliases = [''run''], usage = ''!flee [distance]'', ownerOnly = False \<rparr>,
      \<lparr> cmd_name = ''say'', aliases = [''chat''], usage = ''!say <message>'', ownerOnly = False \<rparr>,
      \<lparr> cmd_name = ''disconnect'', aliases = [''quit'', ''dc''], usage = ''!disconnect'', ownerOnly = True \<rparr> ]"

text \<open>
  \<^verbatim>\<open>aliasMap\<close>: filled by \<^verbatim>\<open>set(alias, cmd.name)\<close> in table order, so a later entry
  for the same alias would win.
\<close>

definition aliasMap :: "string \<rightharpoonup> string" where
  "aliasMap = map_of (rev (concat (map (\<lambda>c. map (\<lambda>a. (a, cmd_name c)) (aliases c)) commands)))"

text \<open>
  What the handler does is a list of effects.  \<^verbatim>\<open>reply\<close> whispers back or chats.  The
  body of \<^verbatim>\<open>disconnect\<close> is spelled out; running any other command is one \<open>Run\<close>
  effect (its body, with the reply of any error it throws).
\<close>

datatype effect =
    Whisper string string
  | Chat string
  | SetTimeout nat "effect list"
  | McDisconnect
  | ProcessExit nat
  | Run string string "string list"

definition reply :: "bool \<Rightarrow> string \<Rightarrow> string \<Rightarrow> effect" where
  "reply whisper sender msg = (if whisper then Whisper sender msg else Chat msg)"

definition execute :: "ChatCommand \<Rightarrow> string \<Rightarrow> string list \<Rightarrow> bool \<Rightarrow> effect list" where
  "execute cmd sender args whisper =
    (if cmd_name cmd = ''disconnect''
     then [reply whisper sender ''Goodbye!'', SetTimeout 1000 [McDisconnect, ProcessExit 0]]
     else [Run (cmd_name cmd) sender args])"

text \<open>
  \<^verbatim>\<open>handleMessage\<close>, for a bot named \<open>bot_username\<close>; \<open>prefix\<close> and \<open>owner\<close> are the
  arguments of \<^verbatim>\<open>setupChatCommands\<close>.  An empty \<open>owner\<close> is falsy.
\<close>

definition handleMessage ::
  "string \<Rightarrow> string \<Rightarrow> string \<Rightarrow> string \<Rightarrow> string \<Rightarrow> bool \<Rightarrow> effect list" where
  "handleMessage bot_username prefix owner sender message whisper =
    (if sender = bot_username then []
     else if \<not> startsWith message prefix then []
     else
       (case split_ws [] (trim (drop (length prefix) message)) of
          [] \<Rightarrow> []
        | part0 # args \<Rightarrow>
           (let name0 = toLowerCase part0
            in if name0 = [] then []
               else
                 (let resolved = (case aliasMap name0 of None \<Rightarrow> name0 | Some n \<Rightarrow> n)
                  in case find (\<lambda>c. cmd_name c = resolved) commands of
                       None \<Rightarrow> [reply whisper sender (''Unknown command: '' @ name0)]
                     | Some cmd \<Rightarrow>
                         if ownerOnly cmd \<and> owner \<noteq> [] \<and> sender \<noteq> owner
                         then [reply whisper sender ''Permission denied.'']
                         else execute cmd sender args whisper))))"

text \<open>The command a message is dispatched to, and its arguments, if any.\<close>

definition dispatch :: "string \<Rightarrow> string \<Rightarrow> (ChatCommand \<times> string list) option" where
  "dispatch prefix message =
    (if \<not> startsWith message prefix then None
     else
       (case split_ws [] (trim (drop (length prefix) message)) of
          [] \<Rightarrow> None
        | part0 # args \<Rightarrow>
           (if toLowerCase part0 = [] then None
            else
              (case find (\<lambda>c. cmd_name c =
                        (case aliasMap (toLowerCase part0) of None \<Rightarrow> toLowerCase part0 | Some n \<Rightarrow> n))
                      commands of
                 None \<Rightarrow> None
               | Some cmd \<Rightarrow> Some (cmd, args)))))"


section \<open>Properties of the scheduler\<close>

subsection \<open>The invariant holds in every run\<close>

lemma inv_scheduler0: "sched_inv defs scheduler0"
  by (simp add: sched_inv_def scheduler0_def)

lemma inv_initAutonomous: "sched_inv defs s \<Longrightarrow> sched_inv defs (initAutonomous b s)"
  by (simp add: sched_inv_def initAutonomous_def)

lemma stop_not_running:
  "map_of (activeTimers s) n = None \<Longrightarrow> snd (stopBehavior n s) = s"
  by (simp add: stopBehavior_def)

lemma timer_filter_agree:
  assumes m: "map (\<lambda>t. (name (timer_def t), timer_id t)) ts = kvs"
    and dn: "distinct (map fst kvs)"
    and di: "distinct (map timer_id ts)"
    and l: "map_of kvs n = Some t"
    and x: "x \<in> set ts"
  shows "(timer_id x \<noteq> t) = (name (timer_def x) \<noteq> n)"
proof -
  from l have "(n, t) \<in> set kvs" by (rule map_of_SomeD)
  with m obtain y where y: "y \<in> set ts" "name (timer_def y) = n" "timer_id y = t" by auto
  have xin: "(name (timer_def x), timer_id x) \<in> set kvs" using m x by auto
  show ?thesis
  proof
    assume a: "timer_id x \<noteq> t"
    have "map_of kvs (name (timer_def x)) = Some (timer_id x)"
      using dn xin by (rule map_of_is_SomeI)
    with l a show "name (timer_def x) \<noteq> n" by auto
  next
    assume "name (timer_def x) \<noteq> n" then show "timer_id x \<noteq> t"
      using y x di by (auto simp: distinct_map dest: inj_onD)
  qed
qed

lemma filter_timers_eq:
  assumes m: "map (\<lambda>t. (name (timer_def t), timer_id t)) ts = kvs"
    and dn: "distinct (map fst kvs)"
    and di: "distinct (map timer_id ts)"
    and l: "map_of kvs n = Some t"
  shows "map (\<lambda>t. (name (timer_def t), timer_id t)) (filter (\<lambda>x. timer_id x \<noteq> t) ts)
         = filter (\<lambda>kv. fst kv \<noteq> n) kvs"
proof -
  have "filter (\<lambda>x. timer_id x \<noteq> t) ts = filter (\<lambda>x. name (timer_def x) \<noteq> n) ts"
    by (rule filter_cong[OF refl]) (rule timer_filter_agree[OF m dn di l])
  then show ?thesis using m by (auto simp: filter_map o_def)
qed

lemma inv_stopBehavior:
  assumes "sched_inv defs s"
  shows "sched_inv defs (snd (stopBehavior n s))"
proof (cases "map_of (activeTimers s) n")
  case None
  then show ?thesis using assms by (simp add: stop_not_running)
next
  case (Some t)
  have e: "map (\<lambda>t. (name (timer_def t), timer_id t)) (filter (\<lambda>x. timer_id x \<noteq> t) (intervals s))
         = filter (\<lambda>kv. fst kv \<noteq> n) (activeTimers s)"
    using assms Some by (intro filter_timers_eq) (simp_all add: sched_inv_def)
  show ?thesis using assms Some e
    by (auto simp add: sched_inv_def stopBehavior_def clearInterval_def Let_def distinct_map_filter
          split: option.splits)
qed


lemma find_name: "find (\<lambda>d. name d = n) defs = Some d \<Longrightarrow> name d = n"
  by (auto simp: find_Some_iff)

lemma map_of_timers_None:
  assumes "map (\<lambda>t. (name (timer_def t), timer_id t)) ts = kvs" "map_of kvs n = None" "x \<in> set ts"
  shows "name (timer_def x) \<noteq> n"
proof
  assume "name (timer_def x) = n"
  with assms(1,3) have "n \<in> fst ` set kvs" by force
  with assms(2) show False by (simp add: map_of_eq_None_iff)
qed

lemma inv_startBehavior:
  assumes "sched_inv defs s"
  shows "sched_inv defs (snd (startBehavior defs n c s))"
proof (cases "bot s")
  case None then show ?thesis using assms by (simp add: startBehavior_def)
next
  case (Some b)
  show ?thesis
  proof (cases "find (\<lambda>d. name d = n) defs")
    case None then show ?thesis using assms Some by (simp add: startBehavior_def)
  next
    case d: (Some d)
    show ?thesis
    proof (cases "map_of (activeTimers s) n")
      case t: (Some t)
      then show ?thesis using assms Some d
        by (auto simp add: startBehavior_def sched_inv_def split: option.splits)
    next
      case None
      have nn: "\<And>x. x \<in> set (intervals s) \<Longrightarrow> name (timer_def x) \<noteq> n"
        using assms None by (auto simp: sched_inv_def dest: map_of_timers_None[rotated 1])
      have nf: "n \<notin> fst ` set (activeTimers s)"
        using None by (simp add: map_of_eq_None_iff)
      have dn: "name d = n" using d by (rule find_name)
      show ?thesis using assms Some d None nn nf dn
        by (auto simp add: startBehavior_def sched_inv_def Let_def less_Suc_eq
               split: option.splits)
    qed
  qed
qed

lemma inv_fire:
  assumes "sched_inv defs s"
  shows "sched_inv defs (snd (fire t s))"
  using assms
  by (auto simp add: fire_def sched_inv_def Let_def split: option.splits sum.splits)

lemma inv_stop_each: "sched_inv defs s \<Longrightarrow> sched_inv defs (stop_each s)"
proof (induction s rule: stop_each.induct)
  case (1 s)
  show ?case
  proof (cases "activeTimers s")
    case Nil then show ?thesis using 1 by simp
  next
    case (Cons kv rest)
    then show ?thesis using 1 by (simp add: inv_stopBehavior)
  qed
qed

lemma stop_each_none: "activeTimers (stop_each s) = []"
proof (induction s rule: stop_each.induct)
  case (1 s)
  show ?case
  proof (cases "activeTimers s")
    case Nil then show ?thesis by simp
  next
    case (Cons kv rest)
    then show ?thesis using 1 by simp
  qed
qed

lemma inv_shutdownAutonomous:
  assumes "sched_inv defs s" shows "sched_inv defs (shutdownAutonomous s)"
proof -
  have "sched_inv defs (stop_each s)" using assms by (rule inv_stop_each)
  then show ?thesis using stop_each_none[of s]
    by (simp add: shutdownAutonomous_def sched_inv_def)
qed

lemma inv_fold_stop:
  "sched_inv defs s \<Longrightarrow> sched_inv defs (fold (\<lambda>n st. snd (stopBehavior n st)) ns s)"
  by (induction ns arbitrary: s) (simp_all add: inv_stopBehavior)

lemma inv_stopAllBehaviors: "sched_inv defs s \<Longrightarrow> sched_inv defs (snd (stopAllBehaviors s))"
  by (simp add: stopAllBehaviors_def Let_def inv_fold_stop)

lemma inv_step: "sched_inv defs s \<Longrightarrow> sched_inv defs (step defs x s)"
  by (cases x)
     (simp_all add: inv_initAutonomous inv_shutdownAutonomous inv_startBehavior
        inv_stopBehavior inv_stopAllBehaviors inv_fire)

lemma inv_run: "sched_inv defs s \<Longrightarrow> sched_inv defs (run defs ops s)"
  unfolding run_def by (induction ops arbitrary: s) (simp_all add: inv_step)

subsection \<open>No session, no start\<close>

lemma bot_stopBehavior: "bot (snd (stopBehavior n s)) = bot s"
  by (simp add: stopBehavior_def clearInterval_def Let_def split: option.splits)

lemma bot_fold_stop: "bot (fold (\<lambda>n st. snd (stopBehavior n st)) ns s) = bot s"
  by (induction ns arbitrary: s) (simp_all add: bot_stopBehavior)

lemma bot_step_no_init:
  "bot s = None \<Longrightarrow> (case x of Init b \<Rightarrow> False | _ \<Rightarrow> True) \<Longrightarrow> bot (step defs x s) = None"
  by (cases x)
     (simp_all add: shutdownAutonomous_def startBehavior_def bot_stopBehavior
        stopAllBehaviors_def Let_def bot_fold_stop fire_def split: option.splits)

lemma bot_run_no_init:
  "bot s = None \<Longrightarrow> no_init ops \<Longrightarrow> bot (run defs ops s) = None"
  unfolding run_def no_init_def
  by (induction ops arbitrary: s) (simp_all add: bot_step_no_init)

text \<open>
  Claim C9.  As long as \<^verbatim>\<open>initAutonomous\<close> has not been called since the module was
  loaded or since the last \<^verbatim>\<open>shutdownAutonomous\<close>, \<^verbatim>\<open>startBehavior\<close> throws
  \<^verbatim>\<open>Bot not connected.\<close> and changes nothing, for every name (registered or not, so the
  connection check comes before the unknown-name check) and every overrides argument;
  \<^verbatim>\<open>stopBehavior\<close>, \<^verbatim>\<open>stopAllBehaviors\<close> and \<^verbatim>\<open>listBehaviors\<close> return normally in
  the same states.
\<close>

theorem start_needs_session:
  assumes "s0 = scheduler0 \<or> s0 = shutdownAutonomous s1"
    and "no_init ops"
    and "s = run defs ops s0"
  shows "startBehavior defs n c s = (Inl ''Bot not connected.'', s) \<and>
         (\<exists>r. fst (stopBehavior n s) = Inr r) \<and>
         (\<exists>r. fst (stopAllBehaviors s) = Inr r) \<and>
         (\<exists>r. listBehaviors defs s = Inr r)"
proof -
  have "bot s0 = None" using assms(1) by (auto simp: scheduler0_def shutdownAutonomous_def)
  then have "bot s = None" using assms(2,3) by (simp add: bot_run_no_init)
  then show ?thesis
    by (simp add: startBehavior_def stopBehavior_def stopAllBehaviors_def listBehaviors_def Let_def
          split: option.splits)
qed

theorem start_needs_session_witness:
  \<open>startBehavior (behaviorDefs (\<lambda>n. idle_tick)) ''guard'' (Some [''radius'' \<mapsto> JNum 8])
      (run (behaviorDefs (\<lambda>n. idle_tick)) [Stop ''guard'', Fire 0] (scheduler0 :: unit scheduler))
    = (Inl ''Bot not connected.'',
       run (behaviorDefs (\<lambda>n. idle_tick)) [Stop ''guard'', Fire 0] scheduler0)\<close>
  using start_needs_session [of "scheduler0 :: unit scheduler" scheduler0 "[Stop ''guard'', Fire 0]"
      "run (behaviorDefs (\<lambda>n. idle_tick)) [Stop ''guard'', Fire 0] scheduler0"
      "behaviorDefs (\<lambda>n. idle_tick)" "''guard''" "Some [''radius'' \<mapsto> JNum 8]"]
  by (simp add: no_init_def)

subsection \<open>At most one timer per behaviour\<close>

lemma filter_key_le_one:
  "distinct (map f xs) \<Longrightarrow> length (filter (\<lambda>x. f x = k) xs) \<le> Suc 0"
proof (induction xs)
  case Nil then show ?case by simp
next
  case (Cons x xs)
  show ?case
  proof (cases "f x = k")
    case True
    then have "filter (\<lambda>y. f y = k) xs = []" using Cons.prems by (force simp: filter_empty_conv image_iff)
    then show ?thesis using True by simp
  next
    case False then show ?thesis using Cons by simp
  qed
qed

lemma inv_live_timers: 
  assumes "sched_inv defs s" shows "live_timers n s \<le> 1"
proof -
  have "map fst (activeTimers s) = map (\<lambda>t. name (timer_def t)) (intervals s)"
    using assms by (auto simp: sched_inv_def o_def dest: arg_cong[where f="map fst"])
  then have "distinct (map (\<lambda>t. name (timer_def t)) (intervals s))"
    using assms by (simp add: sched_inv_def)
  then show ?thesis unfolding live_timers_def using filter_key_le_one[of "\<lambda>t. name (timer_def t)"] by simp
qed

lemma inv_running:
  assumes i: "sched_inv defs s" and r: "map_of (activeTimers s) n = Some t"
  shows "\<exists>x \<in> set (intervals s). timer_id x = t \<and> name (timer_def x) = n \<and>
           behaviorStates s n = Some (timer_state x) \<and>
           find (\<lambda>d. name d = n) defs = Some (timer_def x)"
    and "bot s \<noteq> None"
proof -
  from r have "(n, t) \<in> set (activeTimers s)" by (rule map_of_SomeD)
  then have "(n, t) \<in> set (map (\<lambda>t. (name (timer_def t), timer_id t)) (intervals s))"
    using i by (simp add: sched_inv_def)
  then obtain x where "x \<in> set (intervals s)" "name (timer_def x) = n" "timer_id x = t" by auto
  then show "\<exists>x \<in> set (intervals s). timer_id x = t \<and> name (timer_def x) = n \<and>
           behaviorStates s n = Some (timer_state x) \<and>
           find (\<lambda>d. name d = n) defs = Some (timer_def x)"
    using i by (auto simp: sched_inv_def)
  show "bot s \<noteq> None" using i r by (auto simp: sched_inv_def)
qed


text \<open>
  Claim C1.  In every state the module can reach (by any sequence of calls of its
  exported functions and timer firings, so in particular by any sequence of
  \<^verbatim>\<open>startBehavior\<close> calls) a behaviour name has at most one live interval timer.  If
  the name is running, \<^verbatim>\<open>startBehavior\<close> with overrides returns the "config updated"
  message and changes nothing but the state object the running timer closes over, which
  gets the overrides merged in place; without overrides it returns "is already running"
  and changes nothing at all.  In both cases the timer list and \<^verbatim>\<open>activeTimers\<close> are
  the same as before, so the timer's identity is unchanged.
\<close>

theorem one_timer_per_behavior:
  assumes "s = run defs ops scheduler0"
  shows \<open>live_timers n s \<le> 1 \<and>
         (map_of (activeTimers s) n = Some t \<longrightarrow>
           (\<exists>x \<in> set (intervals s). timer_id x = t \<and> name (timer_def x) = n \<and>
              behaviorStates s n = Some (timer_state x) \<and>
              startBehavior defs n (Some c) s =
                (Inr (''Behavior "'' @ n @ ''" config updated.''),
                 s\<lparr> heap := (heap s)(timer_state x := heap s (timer_state x) ++ c) \<rparr>) \<and>
              startBehavior defs n None s = (Inr (''Behavior "'' @ n @ ''" is already running.''), s)))\<close>
proof -
  have i: "sched_inv defs s" using assms by (simp add: inv_run inv_scheduler0)
  have a: "live_timers n s \<le> 1" using i by (rule inv_live_timers)
  have b: \<open>\<exists>x \<in> set (intervals s). timer_id x = t \<and> name (timer_def x) = n \<and>
              behaviorStates s n = Some (timer_state x) \<and>
              startBehavior defs n (Some c) s =
                (Inr (''Behavior "'' @ n @ ''" config updated.''),
                 s\<lparr> heap := (heap s)(timer_state x := heap s (timer_state x) ++ c) \<rparr>) \<and>
              startBehavior defs n None s = (Inr (''Behavior "'' @ n @ ''" is already running.''), s)\<close>
    if r: "map_of (activeTimers s) n = Some t"
  proof -
    from inv_running[OF i r] obtain x b where
      x: "x \<in> set (intervals s)" "timer_id x = t" "name (timer_def x) = n"
         "behaviorStates s n = Some (timer_state x)"
         "find (\<lambda>d. name d = n) defs = Some (timer_def x)" and b: "bot s = Some b"
      by auto
    show ?thesis using x b r by (intro bexI[of _ x]) (simp_all add: startBehavior_def)
  qed
  show ?thesis using a b by blast
qed


text \<open>The definitions unfolded when a run is evaluated on concrete input.\<close>

lemmas sched_eval =
  run_def startBehavior_def stopBehavior_def clearInterval_def initAutonomous_def
  scheduler0_def behaviorDefs_def Let_def live_timers_def config_value_def get_prop_def

theorem one_timer_per_behavior_witness:
  \<open>map_of (activeTimers (run (behaviorDefs (\<lambda>n. idle_tick))
        [Init (), Start ''guard'' (Some [''radius'' \<mapsto> JNum 8])] scheduler0)) ''guard'' = Some 0 \<and>
    fst (startBehavior (behaviorDefs (\<lambda>n. idle_tick)) ''guard'' (Some [''radius'' \<mapsto> JNum 20])
      (run (behaviorDefs (\<lambda>n. idle_tick))
        [Init (), Start ''guard'' (Some [''radius'' \<mapsto> JNum 8])] scheduler0))
      = Inr ''Behavior "guard" config updated.'' \<and>
    config_value ''guard'' ''radius''
      (snd (startBehavior (behaviorDefs (\<lambda>n. idle_tick)) ''guard'' (Some [''radius'' \<mapsto> JNum 20])
        (run (behaviorDefs (\<lambda>n. idle_tick))
          [Init (), Start ''guard'' (Some [''radius'' \<mapsto> JNum 8])] scheduler0)))
      = JNum 20 \<and>
    live_timers ''guard''
      (snd (startBehavior (behaviorDefs (\<lambda>n. idle_tick)) ''guard'' (Some [''radius'' \<mapsto> JNum 20])
        (run (behaviorDefs (\<lambda>n. idle_tick))
          [Init (), Start ''guard'' (Some [''radius'' \<mapsto> JNum 8])] scheduler0)))
      = 1\<close>
  using one_timer_per_behavior [of
      "run (behaviorDefs (\<lambda>n. idle_tick)) [Init (), Start ''guard'' (Some [''radius'' \<mapsto> JNum 8])] scheduler0"
      "behaviorDefs (\<lambda>n. idle_tick)"
      "[Init (), Start ''guard'' (Some [''radius'' \<mapsto> JNum 8])]"
      "''guard''" 0 "[''radius'' \<mapsto> JNum 20]"]
  by (simp add: sched_eval)


subsection \<open>Starting a stopped behaviour\<close>

text \<open>
  Claim C3 says that a restart merges the configuration retained from the previous run
  between the defaults and the new overrides.  It does not: after
  \<^verbatim>\<open>start("guard", {radius: 8})\<close> and \<^verbatim>\<open>stop("guard")\<close> the retained run-state has
  \<^verbatim>\<open>radius\<close> 8, and \<^verbatim>\<open>start("guard")\<close> then gives \<^verbatim>\<open>radius\<close> 16, the default.
\<close>

theorem restart_keeps_last_config_counterexample:
  \<open>config_value ''guard'' ''radius''
      (run (behaviorDefs (\<lambda>n. idle_tick))
        [Init (), Start ''guard'' (Some [''radius'' \<mapsto> JNum 8]), Stop ''guard'']
        scheduler0) = JNum 8 \<and>
    config_value ''guard'' ''radius''
      (run (behaviorDefs (\<lambda>n. idle_tick))
        [Init (), Start ''guard'' (Some [''radius'' \<mapsto> JNum 8]), Stop ''guard'',
         Start ''guard'' None]
        scheduler0) = JNum 16\<close>
  by (simp add: sched_eval)

text \<open>
  Claim C3, amended.  When \<^verbatim>\<open>startBehavior\<close> is called, with a session initialised,
  for a registered behaviour that is not running (whether or not a run-state is
  retained from an earlier start), the retained run-state is replaced by a fresh object
  \<^verbatim>\<open>{ enabled: true, ...defaultConfig, ...overrides }\<close>: defaults, then overrides, with
  nothing taken from the previous run.  \<^verbatim>\<open>enabled\<close> is true in it when neither the
  defaults nor the overrides have a key of that name.  One timer is created, by
  \<^verbatim>\<open>setInterval\<close> with the definition's interval as its period, ticking the registry's
  definition and closing over the fresh object.  Without a session the call throws
  \<^verbatim>\<open>Bot not connected.\<close> and the retained run-state stays as it is.
\<close>

theorem restart_from_defaults:
  assumes "find (\<lambda>d. name d = n) defs = Some d"
    and "map_of (activeTimers s) n = None"
    and "s' = snd (startBehavior defs n c s)"
    and "ov = (case c of None \<Rightarrow> Map.empty | Some c' \<Rightarrow> c')"
  shows \<open>(bot s \<noteq> None \<longrightarrow>
           fst (startBehavior defs n c s) = Inr (''Behavior "'' @ n @ ''" started.'') \<and>
           behaviorStates s' n = Some (next_addr s) \<and>
           heap s' (next_addr s) = [''enabled'' \<mapsto> JBool True] ++ defaultConfig d ++ ov \<and>
           (''enabled'' \<notin> dom (defaultConfig d) \<union> dom ov \<longrightarrow>
              config_value n ''enabled'' s' = JBool True) \<and>
           intervals s' = intervals s @
              [\<lparr> timer_id = next_timer s, timer_def = d, timer_state = next_addr s,
                 timer_delay = interval d \<rparr>] \<and>
           activeTimers s' = activeTimers s @ [(n, next_timer s)]) \<and>
         (bot s = None \<longrightarrow>
           startBehavior defs n c s = (Inl ''Bot not connected.'', s) \<and> s' = s)\<close>
proof -
  have e: "''enabled'' \<notin> dom (defaultConfig d) \<union> dom ov \<Longrightarrow>
        ([''enabled'' \<mapsto> JBool True] ++ defaultConfig d ++ ov) ''enabled'' = Some (JBool True)"
    by (auto simp: map_add_def dom_def split: option.splits)
  show ?thesis
  proof (cases "bot s")
    case None
    then show ?thesis using assms(3) by (simp add: startBehavior_def)
  next
    case (Some b)
    then show ?thesis using assms e
      by (simp add: startBehavior_def Let_def config_value_def get_prop_def)
  qed
qed

theorem restart_from_defaults_witness:
  \<open>heap (run (behaviorDefs (\<lambda>n. idle_tick))
        [Init (), Start ''guard'' (Some [''radius'' \<mapsto> JNum 8]), Stop ''guard'',
         Start ''guard'' None] scheduler0) 1
    = [''enabled'' \<mapsto> JBool True] ++ [''radius'' \<mapsto> JNum 16] ++ Map.empty \<and>
   map timer_delay (intervals (run (behaviorDefs (\<lambda>n. idle_tick))
        [Init (), Start ''guard'' (Some [''radius'' \<mapsto> JNum 8]), Stop ''guard'',
         Start ''guard'' None] scheduler0)) = [500] \<and>
   startBehavior (behaviorDefs (\<lambda>n. idle_tick)) ''guard'' (Some [''radius'' \<mapsto> JNum 5])
      (run (behaviorDefs (\<lambda>n. idle_tick))
        [Init (), Start ''guard'' (Some [''radius'' \<mapsto> JNum 8]), Shutdown] scheduler0)
    = (Inl ''Bot not connected.'',
       run (behaviorDefs (\<lambda>n. idle_tick))
        [Init (), Start ''guard'' (Some [''radius'' \<mapsto> JNum 8]), Shutdown] scheduler0)\<close>
  using restart_from_defaults [where
      s = "run (behaviorDefs (\<lambda>n. idle_tick))
        [Init (), Start ''guard'' (Some [''radius'' \<mapsto> JNum 8]), Stop ''guard''] scheduler0"
      and n = "''guard''" and defs = "behaviorDefs (\<lambda>n. idle_tick)"
      and d = "\<lparr> name = ''guard'',
        description = ''Attack hostile mobs that come within a radius'',
        defaultConfig = [''radius'' \<mapsto> JNum 16],
        tick = idle_tick, interval = 500 \<rparr>"
      and s' = "run (behaviorDefs (\<lambda>n. idle_tick))
        [Init (), Start ''guard'' (Some [''radius'' \<mapsto> JNum 8]), Stop ''guard'',
         Start ''guard'' None] scheduler0"
      and c = None and ov = Map.empty]
    restart_from_defaults [where
      s = "run (behaviorDefs (\<lambda>n. idle_tick))
        [Init (), Start ''guard'' (Some [''radius'' \<mapsto> JNum 8]), Shutdown] scheduler0"
      and n = "''guard''" and defs = "behaviorDefs (\<lambda>n. idle_tick)"
      and d = "\<lparr> name = ''guard'',
        description = ''Attack hostile mobs that come within a radius'',
        defaultConfig = [''radius'' \<mapsto> JNum 16],
        tick = idle_tick, interval = 500 \<rparr>"
      and s' = "run (behaviorDefs (\<lambda>n. idle_tick))
        [Init (), Start ''guard'' (Some [''radius'' \<mapsto> JNum 8]), Shutdown] scheduler0"
      and c = "Some [''radius'' \<mapsto> JNum 5]" and ov = "[''radius'' \<mapsto> JNum 5]"]
  by (simp add: sched_eval shutdownAutonomous_def)


subsection \<open>Names that are not in the registry\<close>

text \<open>
  Claim C8 says that both \<^verbatim>\<open>startBehavior\<close> and \<^verbatim>\<open>stopBehavior\<close> fail with an
  unknown-behaviour error for a name outside the registry, in every scheduler state.
  \<^verbatim>\<open>stopBehavior\<close> never looks at the registry and returns normally; and without a
  session \<^verbatim>\<open>startBehavior\<close> fails with \<^verbatim>\<open>Bot not connected.\<close> instead.
\<close>

theorem unknown_behavior_counterexample:
  \<open>''fly'' \<notin> set (map name (behaviorDefs (\<lambda>n. idle_tick))) \<and>
    stopBehavior ''fly'' (initAutonomous () scheduler0)
      = (Inr ''Behavior "fly" is not running.'', initAutonomous () scheduler0) \<and>
    fst (startBehavior (behaviorDefs (\<lambda>n. idle_tick)) ''fly'' None (scheduler0 :: unit scheduler))
      = Inl ''Bot not connected.''\<close>
  by (simp add: sched_eval)

lemma find_unknown: "n \<notin> set (map name defs) \<Longrightarrow> find (\<lambda>d. name d = n) defs = None"
  by (auto simp: find_None_iff)

lemma inv_unknown_not_running:
  assumes i: "sched_inv defs s" and u: "n \<notin> set (map name defs)"
  shows "map_of (activeTimers s) n = None"
proof (cases "map_of (activeTimers s) n")
  case None then show ?thesis .
next
  case (Some t)
  from inv_running(1)[OF i Some] have "find (\<lambda>d. name d = n) defs \<noteq> None"
    by auto
  then show ?thesis using find_unknown[OF u] by simp
qed

text \<open>
  Claim C8, amended.  For a name that is not in the registry, in every reachable state:
  \<^verbatim>\<open>startBehavior\<close> with a session fails with
  \<^verbatim>\<open>Unknown behavior: <name>. Available: <names joined by ", ">\<close>, and without a session
  with \<^verbatim>\<open>Bot not connected.\<close>; \<^verbatim>\<open>stopBehavior\<close> does not fail: it returns
  \<^verbatim>\<open>Behavior "<name>" is not running.\<close>  None of the three changes the state.
\<close>

theorem unknown_behavior:
  assumes "n \<notin> set (map name defs)"
    and "s = run defs ops scheduler0"
  shows \<open>(bot s \<noteq> None \<longrightarrow>
            startBehavior defs n c s =
              (Inl (''Unknown behavior: '' @ n @ ''. Available: '' @ join '', '' (map name defs)), s)) \<and>
         (bot s = None \<longrightarrow> startBehavior defs n c s = (Inl ''Bot not connected.'', s)) \<and>
         stopBehavior n s = (Inr (''Behavior "'' @ n @ ''" is not running.''), s)\<close>
proof -
  have i: "sched_inv defs s" using assms(2) by (simp add: inv_run inv_scheduler0)
  have "map_of (activeTimers s) n = None" using i assms(1) by (rule inv_unknown_not_running)
  then show ?thesis using find_unknown[OF assms(1)]
    by (auto simp add: startBehavior_def stopBehavior_def)
qed

theorem unknown_behavior_witness:
  \<open>startBehavior (behaviorDefs (\<lambda>n. idle_tick)) ''fly'' None
      (run (behaviorDefs (\<lambda>n. idle_tick)) [Init (), Start ''guard'' None] scheduler0)
    = (Inl ''Unknown behavior: fly. Available: auto_eat, guard, auto_collect, auto_follow, patrol'',
       run (behaviorDefs (\<lambda>n. idle_tick)) [Init (), Start ''guard'' None] scheduler0)\<close>
  using unknown_behavior [of "''fly''" "behaviorDefs (\<lambda>n. idle_tick)"
      "run (behaviorDefs (\<lambda>n. idle_tick)) [Init (), Start ''guard'' None] scheduler0"
      "[Init (), Start ''guard'' None]" None]
  by (simp add: sched_eval)

subsection \<open>A tick that throws\<close>







section \<open>Properties of the session manager\<close>

subsection \<open>Teardown when the session ends\<close>

lemma inv_session_step:
  "sched_inv defs (auto s) \<Longrightarrow> sched_inv defs (auto (session_step defs view e s))"
proof (cases e)
  case (Connect cfg)
  then show "sched_inv defs (auto s) \<Longrightarrow> ?thesis"
    by (simp add: connect_def Let_def split: option.splits)
next
  case Disconnect
  then show "sched_inv defs (auto s) \<Longrightarrow> ?thesis"
    by (simp add: disconnect_def Let_def inv_shutdownAutonomous split: option.splits)
next
  case (Spawn b u)
  then show "sched_inv defs (auto s) \<Longrightarrow> ?thesis"
    by (simp add: on_spawn_def settle_def Let_def inv_initAutonomous split: option.splits)
next
  case (Failure b m)
  then show "sched_inv defs (auto s) \<Longrightarrow> ?thesis"
    by (simp add: on_error_def settle_def Let_def split: option.splits)
next
  case (End b r)
  then show "sched_inv defs (auto s) \<Longrightarrow> ?thesis"
    by (simp add: on_end_def Let_def inv_shutdownAutonomous)
next
  case (Kicked b r)
  then show "sched_inv defs (auto s) \<Longrightarrow> ?thesis" by (simp add: on_kicked_def)
next
  case (BehaviorStart n c)
  then show "sched_inv defs (auto s) \<Longrightarrow> ?thesis" by (simp add: inv_startBehavior)
next
  case (BehaviorStop n)
  then show "sched_inv defs (auto s) \<Longrightarrow> ?thesis" by (simp add: inv_stopBehavior)
next
  case BehaviorStopAll
  then show "sched_inv defs (auto s) \<Longrightarrow> ?thesis" by (simp add: inv_stopAllBehaviors)
next
  case (TimerFire t)
  then show "sched_inv defs (auto s) \<Longrightarrow> ?thesis" by (simp add: inv_fire)
qed

lemma inv_session_run:
  "sched_inv defs (auto s) \<Longrightarrow> sched_inv defs (auto (session_run defs view evs s))"
  unfolding session_run_def by (induction evs arbitrary: s) (simp_all add: inv_session_step)

lemma shutdown_clean:
  assumes "sched_inv defs a"
  shows "activeTimers (shutdownAutonomous a) = [] \<and> intervals (shutdownAutonomous a) = [] \<and>
         bot (shutdownAutonomous a) = None \<and> running_names defs (shutdownAutonomous a) = []"
proof -
  have i: "sched_inv defs (shutdownAutonomous a)" using assms by (rule inv_shutdownAutonomous)
  have e: "activeTimers (shutdownAutonomous a) = []"
    by (simp add: shutdownAutonomous_def stop_each_none del: stop_each.simps)
  have "intervals (shutdownAutonomous a) = []" using i e by (simp add: sched_inv_def)
  moreover have "running_names defs (shutdownAutonomous a) = []"
    using e by (simp add: running_names_def listBehaviors_def filter_empty_conv)
  ultimately show ?thesis using e by (simp add: shutdownAutonomous_def)
qed

lemma shutdown_idle:
  "activeTimers a = [] \<Longrightarrow> shutdownAutonomous a = a\<lparr> bot := None \<rparr>"
  by (simp add: shutdownAutonomous_def)

lemma bot_startBehavior_None: "bot a = None \<Longrightarrow> snd (startBehavior defs n c a) = a"
  by (simp add: startBehavior_def)

lemma bot_fire_None: "bot a = None \<Longrightarrow> snd (fire t a) = a"
  by (simp add: fire_def split: option.splits)

lemma bot_stopAll: "bot (snd (stopAllBehaviors a)) = bot a"
  by (simp add: stopAllBehaviors_def Let_def bot_fold_stop)

lemma no_session_step:
  assumes "mc_bot s = None \<longrightarrow> bot (auto s) = None"
  shows "mc_bot (session_step defs view e s) = None \<longrightarrow> bot (auto (session_step defs view e s)) = None"
  using assms
  by (cases e)
     (auto simp add: connect_def disconnect_def on_spawn_def on_error_def on_end_def
        on_kicked_def settle_def Let_def shutdownAutonomous_def bot_startBehavior_None
        bot_stopBehavior bot_stopAll bot_fire_None split: option.splits)

lemma no_session_run:
  "mc_bot (session_run defs view evs session0) = None \<longrightarrow>
   bot (auto (session_run defs view evs session0)) = None"
proof -
  have "(mc_bot s = None \<longrightarrow> bot (auto s) = None) \<Longrightarrow>
        mc_bot (fold (session_step defs view) evs s) = None \<longrightarrow>
        bot (auto (fold (session_step defs view) evs s)) = None" for s
  proof (induction evs arbitrary: s)
    case Nil then show ?case by simp
  next
    case (Cons e evs)
    show ?case using Cons.IH[OF no_session_step[OF Cons.prems]] by simp
  qed
  then show ?thesis by (simp add: session_run_def session0_def scheduler0_def)
qed

text \<open>
  Claim C4.  In every state the session manager and the scheduler can reach together,
  when the session ends, either by the \<^verbatim>\<open>end\<close> event of an instance (a kick or a
  dropped connection ends in that event) or by a call of \<^verbatim>\<open>disconnect()\<close>, then
  afterwards no timer is live, \<^verbatim>\<open>activeTimers\<close> is empty, the scheduler's \<^verbatim>\<open>_bot\<close>
  is null, \<^verbatim>\<open>listBehaviors\<close> reports no behaviour as running, and \<^verbatim>\<open>bot\<close> is null.
  (A \<^verbatim>\<open>disconnect()\<close> that finds \<^verbatim>\<open>bot\<close> null does nothing, and nothing is running
  then.)  If nothing was running, the teardown only clears \<^verbatim>\<open>_bot\<close>.
\<close>

theorem session_end_tears_down:
  assumes "s = session_run defs view evs session0"
    and "s' = on_end b reason s \<or> s' = snd (disconnect s)"
  shows "activeTimers (auto s') = [] \<and> intervals (auto s') = [] \<and> bot (auto s') = None \<and>
         running_names defs (auto s') = [] \<and>
         mc_bot s' = None \<and>
         (activeTimers (auto s) = [] \<longrightarrow> auto s' = (auto s)\<lparr> bot := None \<rparr>)"
proof -
  have "sched_inv defs (auto session0)" by (simp add: session0_def inv_scheduler0)
  then have i: "sched_inv defs (auto s)" using assms(1) by (simp add: inv_session_run)
  have j: "mc_bot s = None \<longrightarrow> bot (auto s) = None" using assms(1) no_session_run by simp
  show ?thesis
  proof (cases "s' = on_end b reason s \<or> mc_bot s \<noteq> None")
    case True
    then have a: "auto s' = shutdownAutonomous (auto s)"
      using assms(2) by (auto simp: on_end_def disconnect_def Let_def split: option.splits)
    have m: "mc_bot s' = None"
      using assms(2) True by (auto simp: on_end_def disconnect_def Let_def split: option.splits)
    show ?thesis using shutdown_clean[OF i] shutdown_idle[of "auto s"] a m by simp
  next
    case False
    then have n: "mc_bot s = None" and e: "s' = s" using assms(2) by (auto simp: disconnect_def)
    have b: "bot (auto s) = None" using j n by simp
    then have t: "activeTimers (auto s) = []" using i by (simp add: sched_inv_def)
    then have v: "intervals (auto s) = []" using i by (simp add: sched_inv_def)
    have r: "running_names defs (auto s) = []"
      using t by (simp add: running_names_def listBehaviors_def filter_empty_conv)
    have c: "(auto s)\<lparr> bot := None \<rparr> = auto s" using b by (cases "auto s") simp
    show ?thesis using n e b t v r c by simp
  qed
qed

text \<open>The definitions unfolded when a session is evaluated on concrete events.\<close>

lemmas session_eval =
  session_run_def connect_def on_spawn_def on_end_def disconnect_def settle_def session0_def
  running_names_def listBehaviors_def snapshot_def blank_view_def local_cfg_def

theorem session_end_tears_down_witness:
  \<open>running_names (behaviorDefs (\<lambda>n. idle_tick))
      (auto (session_run (behaviorDefs (\<lambda>n. idle_tick)) blank_view
         [Connect local_cfg, Spawn 0 ''OpenClaw'', BehaviorStart ''guard'' None,
          BehaviorStart ''auto_eat'' None] session0))
     = [''auto_eat'', ''guard''] \<and>
    running_names (behaviorDefs (\<lambda>n. idle_tick))
      (auto (on_end 0 ''socketClosed'' (session_run (behaviorDefs (\<lambda>n. idle_tick)) blank_view
         [Connect local_cfg, Spawn 0 ''OpenClaw'', BehaviorStart ''guard'' None,
          BehaviorStart ''auto_eat'' None] session0)))
     = [] \<and>
    intervals (auto (on_end 0 ''socketClosed'' (session_run (behaviorDefs (\<lambda>n. idle_tick)) blank_view
         [Connect local_cfg, Spawn 0 ''OpenClaw'', BehaviorStart ''guard'' None,
          BehaviorStart ''auto_eat'' None] session0)))
     = []\<close>
proof -
  have "running_names (behaviorDefs (\<lambda>n. idle_tick))
      (auto (session_run (behaviorDefs (\<lambda>n. idle_tick)) blank_view
         [Connect local_cfg, Spawn 0 ''OpenClaw'', BehaviorStart ''guard'' None,
          BehaviorStart ''auto_eat'' None] session0))
     = [''auto_eat'', ''guard'']"
    by (simp add: session_eval sched_eval)
  then show ?thesis
    using session_end_tears_down [of
      "session_run (behaviorDefs (\<lambda>n. idle_tick)) blank_view
         [Connect local_cfg, Spawn 0 ''OpenClaw'', BehaviorStart ''guard'' None,
          BehaviorStart ''auto_eat'' None] session0"
      "behaviorDefs (\<lambda>n. idle_tick)" blank_view
      "[Connect local_cfg, Spawn 0 ''OpenClaw'', BehaviorStart ''guard'' None,
          BehaviorStart ''auto_eat'' None]"
      "on_end 0 ''socketClosed'' (session_run (behaviorDefs (\<lambda>n. idle_tick)) blank_view
         [Connect local_cfg, Spawn 0 ''OpenClaw'', BehaviorStart ''guard'' None,
          BehaviorStart ''auto_eat'' None] session0)"
      0 "''socketClosed''"]
    by simp
qed

subsection \<open>The earlier revision never starts a behaviour\<close>

text \<open>
  With the earlier revision of the session manager the scheduler is never given a bot,
  so \<^verbatim>\<open>startBehavior\<close> always fails and the scheduler stays in its initial state: no
  behaviour is ever running, before or after a session ends.
\<close>

lemma idle_scheduler_step:
  assumes "auto s = scheduler0"
  shows "auto (session_step_v1 defs view e s) = scheduler0"
  using assms
  by (cases e)
     (simp_all add: connect_def disconnect_v1_def on_spawn_v1_def on_error_def on_end_v1_def
        on_kicked_def settle_def Let_def startBehavior_def stopBehavior_def stopAllBehaviors_def
        fire_def scheduler0_def split: option.splits)

lemma legacy_scheduler_idle:
  "auto (session_run_v1 defs view evs session0) = scheduler0"
proof -
  have "auto s = scheduler0 \<Longrightarrow> auto (fold (session_step_v1 defs view) evs s) = scheduler0" for s
    by (induction evs arbitrary: s) (simp_all add: idle_scheduler_step)
  then show ?thesis by (simp add: session_run_v1_def session0_def)
qed

subsection \<open>One session at a time?\<close>

text \<open>
  While \<^verbatim>\<open>bot\<close> is set, \<^verbatim>\<open>connect\<close> resolves on the spot with the snapshot and
  creates nothing.
\<close>

lemma connect_while_connected:
  "mc_bot s = Some b \<Longrightarrow> connect view cfg s = (Resolved (snapshot view s), s)"
  by (simp add: connect_def)

text \<open>
  Claim C5 says that no sequence of \<^verbatim>\<open>connect\<close> calls ever creates more than one
  session.  But \<^verbatim>\<open>bot\<close> is only assigned by the \<^verbatim>\<open>spawn\<close> handler, so a second
  \<^verbatim>\<open>connect\<close> during the handshake of the first finds \<^verbatim>\<open>bot\<close> null and calls
  \<^verbatim>\<open>mineflayer.createBot\<close> again: two instances exist, both spawn, and \<^verbatim>\<open>bot\<close> ends up
  referring to the second.
\<close>

theorem connect_during_handshake:
  \<open>created (session_run (behaviorDefs (\<lambda>n. idle_tick)) blank_view
       [Connect local_cfg, Connect local_cfg] session0) = [0, 1] \<and>
    spawned (session_run (behaviorDefs (\<lambda>n. idle_tick)) blank_view
       [Connect local_cfg, Connect local_cfg, Spawn 0 ''OpenClaw'', Spawn 1 ''OpenClaw''] session0)
      = [0, 1] \<and>
    mc_bot (session_run (behaviorDefs (\<lambda>n. idle_tick)) blank_view
       [Connect local_cfg, Connect local_cfg, Spawn 0 ''OpenClaw'', Spawn 1 ''OpenClaw''] session0)
      = Some 1\<close>
  by (simp add: session_eval initAutonomous_def)

section \<open>Properties of the actions\<close>

text \<open>The definitions unfolded when an action is evaluated in the sample world.\<close>

lemmas action_eval =
  moveTo_def digAt_def placeBlock_def collectBlock_def craftItem_def navigateTo_def
  waitForGoal_def getBotOrThrow_def sample_api_def sample_world0_def Let_def show_nat.simps

subsection \<open>Navigation timeouts\<close>

text \<open>
  Claim C6 says that no action that waits on navigation ever rejects because the wait
  timed out.  In the sample world with a navigation that times out, \<^verbatim>\<open>moveTo\<close> rejects
  with \<^verbatim>\<open>Pathfinding timed out.\<close>
\<close>

theorem path_timeout_counterexample:
  "fst (moveTo (sample_api timed_out False) 10 64 10 (Some sample_world0))
     = Inl ''Pathfinding timed out.''"
  by (simp add: action_eval)

lemma waitForGoal_timeout:
  "fst (next_nav_event api b) = timed_out \<Longrightarrow>
   waitForGoal api b = (Inl ''Pathfinding timed out.'', pathfinder_stop api (snd (next_nav_event api b)))"
  by (cases "next_nav_event api b") (simp add: waitForGoal_def)

lemma navigateTo_timeout:
  "rng + 1 < distanceTo api b pos \<Longrightarrow> nav_times_out api (GoalNear pos rng) b \<Longrightarrow>
   navigateTo api pos rng b =
     (Inl ''Pathfinding timed out.'',
      pathfinder_stop api (snd (next_nav_event api (setGoal api (GoalNear pos rng) b))))"
  by (simp add: navigateTo_def nav_times_out_def waitForGoal_timeout)


text \<open>
  Claim C6, amended.  When the wait times out, \<^verbatim>\<open>waitForGoal\<close> stops the pathfinder
  and rejects with \<^verbatim>\<open>Pathfinding timed out.\<close>  \<^verbatim>\<open>moveTo\<close>, which always navigates,
  and \<^verbatim>\<open>digAt\<close>, \<^verbatim>\<open>placeBlock\<close> and \<^verbatim>\<open>craftItem\<close>, when they have to navigate
  (target block resolved and further away than the range plus one; for \<^verbatim>\<open>craftItem\<close>:
  no recipe without a table, and a table found), reject with that error.  Only
  \<^verbatim>\<open>collectBlock\<close> absorbs it: in its loop the timeout is caught, a warning is
  logged, and the loop goes on with the next position, without looking at the
  timed-out position again; and once positions were found \<^verbatim>\<open>collectBlock\<close> resolves,
  whatever happens in the loop.
\<close>

theorem path_timeout_surfaces:
  shows "(nav_times_out api (GoalNear (x, y, z) 1) b \<longrightarrow>
            fst (moveTo api x y z (Some b)) = Inl ''Pathfinding timed out.'') \<and>
         (blockAt api b (x, y, z) = Some blk \<and> block_name blk \<noteq> ''air'' \<and>
          5 < distanceTo api b (x, y, z) \<and> nav_times_out api (GoalNear (x, y, z) 4) b \<longrightarrow>
            fst (digAt api x y z (Some b)) = Inl ''Pathfinding timed out.'') \<and>
         (blockAt api b (x, y, z) = Some blk \<and>
          5 < distanceTo api b (x, y, z) \<and> nav_times_out api (GoalNear (x, y, z) 4) b \<longrightarrow>
            fst (placeBlock api x y z (Some b)) = Inl ''Pathfinding timed out.'') \<and>
         (itemsByName api item = Some i \<and> recipesFor api b i None = [] \<and>
          findBlock api b (blocksByName api ''crafting_table'') 32 = Some tbl \<and>
          4 < distanceTo api b (block_position tbl) \<and>
          nav_times_out api (GoalNear (block_position tbl) 3) b \<longrightarrow>
            fst (craftItem api item cnt (Some b)) = Inl ''Pathfinding timed out.'') \<and>
         (blockAt api b pos = Some blk \<and> block_name blk \<noteq> ''air'' \<and>
          5 < distanceTo api b pos \<and> nav_times_out api (GoalNear pos 4) b \<longrightarrow>
            collect_loop api cnt (pos # rest) k b lg =
              collect_loop api cnt rest k
                (pathfinder_stop api (snd (next_nav_event api (setGoal api (GoalNear pos 4) b))))
                (lg @ [(Warn, ''[MC] Failed to collect at '' @ vec_str api pos @
                              '': Pathfinding timed out.'')])) \<and>
         (blocksByName api bn = Some t \<and> findBlocks api b t 64 cnt \<noteq> [] \<longrightarrow>
            (\<exists>msg. fst (collectBlock api bn cnt (Some b) lg) = Inr msg))"
proof (intro conjI impI)
  assume "nav_times_out api (GoalNear (x, y, z) 1) b"
  then show "fst (moveTo api x y z (Some b)) = Inl ''Pathfinding timed out.''"
    by (simp add: moveTo_def getBotOrThrow_def nav_times_out_def waitForGoal_timeout)
next
  assume "blockAt api b (x, y, z) = Some blk \<and> block_name blk \<noteq> ''air'' \<and>
          5 < distanceTo api b (x, y, z) \<and> nav_times_out api (GoalNear (x, y, z) 4) b"
  then show "fst (digAt api x y z (Some b)) = Inl ''Pathfinding timed out.''"
    by (simp add: digAt_def getBotOrThrow_def navigateTo_timeout)
next
  assume "blockAt api b (x, y, z) = Some blk \<and>
          5 < distanceTo api b (x, y, z) \<and> nav_times_out api (GoalNear (x, y, z) 4) b"
  then show "fst (placeBlock api x y z (Some b)) = Inl ''Pathfinding timed out.''"
    by (simp add: placeBlock_def getBotOrThrow_def navigateTo_timeout)
next
  assume "itemsByName api item = Some i \<and> recipesFor api b i None = [] \<and>
          findBlock api b (blocksByName api ''crafting_table'') 32 = Some tbl \<and>
          4 < distanceTo api b (block_position tbl) \<and>
          nav_times_out api (GoalNear (block_position tbl) 3) b"
  then show "fst (craftItem api item cnt (Some b)) = Inl ''Pathfinding timed out.''"
    by (simp add: craftItem_def getBotOrThrow_def navigateTo_timeout)
next
  assume "blockAt api b pos = Some blk \<and> block_name blk \<noteq> ''air'' \<and>
          5 < distanceTo api b pos \<and> nav_times_out api (GoalNear pos 4) b"
  then show "collect_loop api cnt (pos # rest) k b lg =
              collect_loop api cnt rest k
                (pathfinder_stop api (snd (next_nav_event api (setGoal api (GoalNear pos 4) b))))
                (lg @ [(Warn, ''[MC] Failed to collect at '' @ vec_str api pos @
                              '': Pathfinding timed out.'')])"
    by (simp add: navigateTo_timeout)
next
  assume a: "blocksByName api bn = Some t \<and> findBlocks api b t 64 cnt \<noteq> []"
  show "\<exists>msg. fst (collectBlock api bn cnt (Some b) lg) = Inr msg"
  proof (cases "collect_loop api cnt (findBlocks api b t 64 cnt) 0 b lg")
    case (fields k b' lg')
    then show ?thesis using a by (simp add: collectBlock_def getBotOrThrow_def)
  qed
qed

theorem path_timeout_surfaces_witness:
  "fst (digAt (sample_api timed_out False) 1 64 1 (Some sample_world0)) = Inl ''Pathfinding timed out.'' \<and>
   fst (placeBlock (sample_api timed_out False) 1 64 1 (Some sample_world0)) = Inl ''Pathfinding timed out.'' \<and>
   collectBlock (sample_api timed_out False) ''stone'' 1 (Some sample_world0) []
     = (Inr ''Collected 0/1 stone.'',
        Some \<lparr> arrived = False, mined = False, goals = [GoalNear (1, 64, 1) 4], stops = 1, dug = [] \<rparr>,
        [(Warn, ''[MC] Failed to collect at (1, 64, 1): Pathfinding timed out.'')])"
  using path_timeout_surfaces [of "sample_api timed_out False" 1 64 1 sample_world0
      "\<lparr> block_name = ''stone'', block_position = (1, 64, 1) \<rparr>" "''stick''" 2
      "\<lparr> block_name = ''crafting_table'', block_position = (1, 64, 1) \<rparr>" 1
      "(1, 64, 1)" "[]" 0 "[]" "''stone''" 1]
  by (simp add: action_eval nav_times_out_def)

subsection \<open>Digging after the transit\<close>

text \<open>
  Claim C7 says that \<^verbatim>\<open>digAt\<close> resolves the block again after navigating and fails if
  it has disappeared.  In the sample world the bot is out of range, the navigation
  succeeds, and the stone at the target is mined by somebody else during the transit.
  \<^verbatim>\<open>digAt\<close> does not look again: it hands the block it resolved before the transit to
  \<^verbatim>\<open>dig\<close> and reports \<^verbatim>\<open>Dug stone\<close>, although \<^verbatim>\<open>blockAt\<close> gives air at the target
  when the bot arrives.  \<^verbatim>\<open>collectBlock\<close>, in the same world, does look again and
  skips the position.
\<close>

theorem digAt_stale_block:
  "digAt (sample_api goal_reached True) 1 64 1 (Some sample_world0)
     = (Inr ''Dug stone at 1, 64, 1.'',
        Some \<lparr> arrived = True, mined = True, goals = [GoalNear (1, 64, 1) 4], stops = 0,
               dug = [\<lparr> block_name = ''stone'', block_position = (1, 64, 1) \<rparr>] \<rparr>) \<and>
   map_option block_name
     (blockAt (sample_api goal_reached True)
        (snd (navigateTo (sample_api goal_reached True) (1, 64, 1) 4 sample_world0)) (1, 64, 1))
     = Some ''air'' \<and>
   fst (collectBlock (sample_api goal_reached True) ''stone'' 1 (Some sample_world0) [])
     = Inr ''Collected 0/1 stone.''"
  by (simp add: action_eval)

section \<open>Properties of the chat-command handler\<close>

lemma execute_not_denied:
  "execute cmd sender args whisper \<noteq> [reply whisper sender ''Permission denied.'']"
  by (simp add: execute_def reply_def)

text \<open>
  Claim C10.  Take a chat message that the handler dispatches to an owner-only command
  (it comes from somebody other than the bot itself, whose own messages are dropped
  first; it starts with the prefix; its first word is the name or an alias of the
  command).  If the configured owner is the empty string, the command is executed
  whoever the sender is.  If the owner is not empty and the sender is not the owner,
  the only effect is the reply \<^verbatim>\<open>Permission denied.\<close>, which is not an execution of
  the command; the owner's own message is executed.  The only owner-only command is
  \<^verbatim>\<open>disconnect\<close>, whose body says goodbye and, a second later, disconnects and exits
  the process.
\<close>

theorem owner_gate:
  assumes "sender \<noteq> bot_username"
    and "dispatch prefix message = Some (cmd, args)"
    and "ownerOnly cmd"
  shows "(owner = [] \<longrightarrow>
            handleMessage bot_username prefix owner sender message whisper
              = execute cmd sender args whisper) \<and>
         (owner \<noteq> [] \<and> sender \<noteq> owner \<longrightarrow>
            handleMessage bot_username prefix owner sender message whisper
              = [reply whisper sender ''Permission denied.''] \<and>
            handleMessage bot_username prefix owner sender message whisper
              \<noteq> execute cmd sender args whisper) \<and>
         (owner \<noteq> [] \<and> sender = owner \<longrightarrow>
            handleMessage bot_username prefix owner sender message whisper
              = execute cmd sender args whisper) \<and>
         cmd_name cmd = ''disconnect'' \<and>
         execute cmd sender args whisper
           = [reply whisper sender ''Goodbye!'', SetTimeout 1000 [McDisconnect, ProcessExit 0]]"
proof -
  have h: "handleMessage bot_username prefix owner sender message whisper =
        (if owner \<noteq> [] \<and> sender \<noteq> owner then [reply whisper sender ''Permission denied.'']
         else execute cmd sender args whisper)"
    using assms
    by (auto simp add: handleMessage_def dispatch_def Let_def split: if_splits list.splits option.splits)
  have "cmd \<in> set commands"
    using assms(2)
    by (auto simp add: dispatch_def find_Some_iff in_set_conv_nth split: if_splits list.splits option.splits)
  then have d: "cmd_name cmd = ''disconnect''" using assms(3) by (auto simp: commands_def)
  show ?thesis using h d execute_not_denied[of cmd sender args whisper]
    by (auto simp: execute_def)
qed

text \<open>The definitions unfolded when the handler is evaluated on a concrete message.\<close>

lemmas chat_eval =
  handleMessage_def dispatch_def startsWith_def trim_def is_space_def toLowerCase_def
  aliasMap_def commands_def execute_def reply_def Let_def

theorem owner_gate_witness:
  "handleMessage ''OpenClaw'' ''!'' [] ''Alex'' ''!DC  now'' False
     = [Chat ''Goodbye!'', SetTimeout 1000 [McDisconnect, ProcessExit 0]] \<and>
   handleMessage ''OpenClaw'' ''!'' ''Steve'' ''Alex'' ''!DC  now'' False
     = [Chat ''Permission denied.'']"
  using owner_gate [of "''Alex''" "''OpenClaw''" "''!''" "''!DC  now''"
      "\<lparr> cmd_name = ''disconnect'', aliases = [''quit'', ''dc''], usage = ''!disconnect'', ownerOnly = True \<rparr>"
      "[''now'']" "[]" False]
    owner_gate [of "''Alex''" "''OpenClaw''" "''!''" "''!DC  now''"
      "\<lparr> cmd_name = ''disconnect'', aliases = [''quit'', ''dc''], usage = ''!disconnect'', ownerOnly = True \<rparr>"
      "[''now'']" "''Steve''" False]
  by (simp add: chat_eval)

end
